theory Spec2Isabelle
  imports Complex_Main "HOL-Library.Word" "HOL-Library.Sublist"
begin

section \<open>Telemetry ingestion core of the BLE sensor script\<close>

text \<open>
  A shallow embedding of \<^verbatim>\<open>src/movesensor.py\<close> and of the annotation holder of
  \<^verbatim>\<open>src/annotation.py\<close>. The BLE transport (bleak), the wall clock and the
  operator's button clicks are the environment: their outcomes are inputs of the model.
  Every call the session makes to the transport is recorded in a trace, and every
  exception the transport can raise is a branch of the model.
\<close>

subsection \<open>Bytes, integers and floats of a notification payload\<close>

type_synonym byte = "8 word"

datatype decode_error = OutOfBounds

text \<open>
  The value of a Python float that \<^verbatim>\<open>struct.unpack('<f', ...)\<close> can return: every
  binary32 datum is exactly representable, so a finite value is a real number; the
  negative zero, the infinities and NaN are values of their own.
\<close>

datatype pyfloat = Finite real | NegZero | PosInf | NegInf | NaN

text \<open>Little-endian value of a byte sequence: the first byte is the least significant.\<close>

fun le_nat :: "byte list \<Rightarrow> nat" where
  "le_nat [] = 0"
| "le_nat (b # bs) = unat b + 256 * le_nat bs"

text \<open>IEEE-754 binary32: 1 sign bit, 8 exponent bits (bias 127), 23 fraction bits.\<close>

definition binary32 :: "nat \<Rightarrow> pyfloat" where
  "binary32 n =
     (let neg = (n div 2 ^ 31) mod 2 = 1;
          e = (n div 2 ^ 23) mod 256;
          m = n mod 2 ^ 23
      in if e = 255 then (if m = 0 then (if neg then NegInf else PosInf) else NaN)
         else if e = 0 \<and> m = 0 then (if neg then NegZero else Finite 0)
         else let mag = (if e = 0 then real m / 2 ^ 149
                         else real (2 ^ 23 + m) * 2 ^ e / 2 ^ 150)
              in Finite (if neg then - mag else mag))"

text \<open>
  Modelled from the spec: \<^verbatim>\<open>src/binary_parser.py\<close> (class DataView) is not among the
  sources. Section 4.1: \<^verbatim>\<open>read_u32(offset)\<close> reads 4 bytes at \<^verbatim>\<open>offset\<close> in
  little-endian order and fails with OutOfBounds if \<^verbatim>\<open>offset+4\<close> exceeds the buffer
  length; \<^verbatim>\<open>read_f32(offset)\<close> reads 4 bytes at \<^verbatim>\<open>offset\<close>, reinterprets them per
  IEEE-754 binary32 in the same byte order, same bounds failure mode.
\<close>

definition get_uint_32 :: "byte list \<Rightarrow> nat \<Rightarrow> decode_error + nat" where
  "get_uint_32 buf start_index =
     (if start_index + 4 \<le> length buf
      then Inr (le_nat (take 4 (drop start_index buf)))
      else Inl OutOfBounds)"

definition get_float_32 :: "byte list \<Rightarrow> nat \<Rightarrow> decode_error + pyfloat" where
  "get_float_32 buf start_index =
     (if start_index + 4 \<le> length buf
      then Inr (binary32 (le_nat (take 4 (drop start_index buf))))
      else Inl OutOfBounds)"

subsection \<open>Readings and the CSV output\<close>

text \<open>
  Modelled from the spec: \<^verbatim>\<open>models.py\<close> (class Acceleration) is not among the sources.
  Section 3 gives its fields; \<^verbatim>\<open>as_csv_field\<close> gives one cell per column of the header
  row of \<^verbatim>\<open>save_as_csv\<close>, in the header's order.
\<close>

record acceleration =
  timestamp :: nat
  timestamp_local :: string
  ax :: pyfloat
  ay :: pyfloat
  az :: pyfloat
  fall_state :: string

datatype cell = Str string | Num nat | Flt pyfloat

definition as_csv_field :: "acceleration \<Rightarrow> cell list" where
  "as_csv_field a =
     [Num (timestamp a), Str (timestamp_local a), Flt (ax a), Flt (ay a), Flt (az a),
      Str (fall_state a)]"

definition head :: "cell list" where
  "head = [Str ''timestamp'', Str ''timestamp_local'', Str ''ax'', Str ''ay'', Str ''az'',
           Str ''fall_state'']"

text \<open>\<^verbatim>\<open>save_as_csv\<close>: the rows written to the file, from the global DATA_POINTS.\<close>

definition save_as_csv :: "acceleration list \<Rightarrow> cell list list" where
  "save_as_csv DATA_POINTS = head # map as_csv_field DATA_POINTS"

subsection \<open>The sink\<close>

text \<open>
  \<^verbatim>\<open>run_queue_consumer\<close> over the items that are put on the queue, in the order of the
  puts (the queue is an unbounded FIFO, and the consumer is its only reader).
  \<^verbatim>\<open>None\<close> is the sentinel. When the items run out before a sentinel, the consumer
  stays suspended in \<^verbatim>\<open>queue.get()\<close>: it has not returned and has written no file.
\<close>

record sink =
  data_points :: "acceleration list"
  files :: "cell list list list"
  returned :: bool
  unconsumed :: "acceleration option list"

fun run_queue_consumer :: "acceleration list \<Rightarrow> acceleration option list \<Rightarrow> sink" where
  "run_queue_consumer DATA_POINTS [] =
     \<lparr>data_points = DATA_POINTS, files = [], returned = False, unconsumed = []\<rparr>"
| "run_queue_consumer DATA_POINTS (None # rest) =
     \<lparr>data_points = DATA_POINTS, files = [save_as_csv DATA_POINTS], returned = True,
      unconsumed = rest\<rparr>"
| "run_queue_consumer DATA_POINTS (Some data # rest) =
     run_queue_consumer (DATA_POINTS @ [data]) rest"

subsection \<open>Discovery\<close>

record device =
  name :: "string option"
  address :: string

text \<open>Python's \<^verbatim>\<open>str.endswith\<close>.\<close>

definition endswith :: "string \<Rightarrow> string \<Rightarrow> bool" where
  "endswith s suf = (length suf \<le> length s \<and> drop (length s - length suf) s = suf)"

text \<open>
  The discovery loop of \<^verbatim>\<open>run_ble_client\<close>: the address of the device at which the
  loop breaks, or \<^verbatim>\<open>None\<close> when it runs to the end (\<^verbatim>\<open>found\<close> stays False). A name
  is truthy when it is neither \<^verbatim>\<open>None\<close> nor the empty string.
\<close>

fun find_device :: "device list \<Rightarrow> string \<Rightarrow> string option" where
  "find_device [] end_of_serial = None"
| "find_device (d # ds) end_of_serial =
     (case name d of
        None \<Rightarrow> find_device ds end_of_serial
      | Some n \<Rightarrow>
          if n \<noteq> [] \<and> endswith n end_of_serial then Some (address d)
          else find_device ds end_of_serial)"

subsection \<open>The session\<close>

definition SENSOR_ID :: string where
  "SENSOR_ID = ''223430000278''"

definition WRITE_CHARACTERISTIC_UUID :: string where
  "WRITE_CHARACTERISTIC_UUID = ''34800001-7185-4d5d-b431-630e7050e8f0''"

definition NOTIFY_CHARACTERISTIC_UUID :: string where
  "NOTIFY_CHARACTERISTIC_UUID = ''34800002-7185-4d5d-b431-630e7050e8f0''"

text \<open>The calls made to the transport, in the order they are made.\<close>

datatype action =
    Connect string
  | StartNotify string
  | WriteGattChar string "byte list" bool
  | StopNotify string
  | Disconnect

text \<open>
  The exceptions that leave the session: those of the transport calls, and the
  \<^verbatim>\<open>ValueError\<close> of \<^verbatim>\<open>signal.signal\<close> when it is called off the main thread.
\<close>

datatype ble_error =
    DiscoverFailed | ConnectFailed | SignalFailed | StartNotifyFailed | WriteFailed
  | StopNotifyFailed | DisconnectFailed

text \<open>
  What happens while the session waits for the disconnect event: a notification (its
  payload, and the wall clock read by its handler), or a click on one of the two buttons
  of the annotation window.
\<close>

datatype event =
    Notification "byte list" string
  | FallButtonClicked
  | NotFallButtonClicked

text \<open>
  The environment of one run: what discovery returns, which transport calls raise,
  whether the session runs on the main thread of the interpreter (the run of line 213
  does, the run of \<^verbatim>\<open>ThreadManager.run_asyncio_loop\<close> does not), the events delivered
  while subscribed, whether the disconnect event is ever set, and the value of
  \<^verbatim>\<open>client.is_connected\<close> read after it.
\<close>

record transport =
  discovered :: "ble_error + device list"
  connect_ok :: bool
  main_thread :: bool
  start_notify_ok :: bool
  subscribe_ok :: bool
  events :: "event list"
  disconnect_set :: bool
  is_connected :: bool
  unsubscribe_ok :: bool
  stop_notify_ok :: bool
  disconnect_ok :: bool

text \<open>
  The state the session works on: the queue (the items put, oldest first), the trace of
  transport calls, the readings emitted on \<^verbatim>\<open>data_received_signal\<close>, the annotation
  window's \<^verbatim>\<open>fall_state\<close>, and the exceptions of handler invocations, which stay in the
  task the transport created for the invocation.
\<close>

record world =
  queue :: "acceleration option list"
  trace :: "action list"
  emitted :: "acceleration list"
  annotation_fall_state :: string
  handler_errors :: "decode_error list"

datatype outcome = Returned | Raised ble_error | Suspended

text \<open>\<^verbatim>\<open>AnnotateAccelerometerData.__init__\<close> sets \<^verbatim>\<open>fall_state = "default"\<close>.\<close>

definition initial_world :: world where
  "initial_world =
     \<lparr>queue = [], trace = [], emitted = [], annotation_fall_state = ''default'',
      handler_errors = []\<rparr>"

definition fall_button_clicked :: "world \<Rightarrow> world" where
  "fall_button_clicked w = w\<lparr>annotation_fall_state := ''Start''\<rparr>"

definition not_fall_button_clicked :: "world \<Rightarrow> world" where
  "not_fall_button_clicked w = w\<lparr>annotation_fall_state := ''Stop''\<rparr>"

definition put :: "acceleration option \<Rightarrow> world \<Rightarrow> world" where
  "put item w = w\<lparr>queue := queue w @ [item]\<rparr>"

definition call :: "action \<Rightarrow> world \<Rightarrow> world" where
  "call a w = w\<lparr>trace := trace w @ [a]\<rparr>"

text \<open>The four fields dug from the binary, at offsets 2, 6, 10 and 14.\<close>

definition dig :: "byte list \<Rightarrow> decode_error + (nat \<times> pyfloat \<times> pyfloat \<times> pyfloat)" where
  "dig d =
     (case get_uint_32 d 2 of Inl e \<Rightarrow> Inl e | Inr ts \<Rightarrow>
      case get_float_32 d 6 of Inl e \<Rightarrow> Inl e | Inr x \<Rightarrow>
      case get_float_32 d 10 of Inl e \<Rightarrow> Inl e | Inr y \<Rightarrow>
      case get_float_32 d 14 of Inl e \<Rightarrow> Inl e | Inr z \<Rightarrow> Inr (ts, x, y, z))"

text \<open>
  \<^verbatim>\<open>notification_handler\<close>: the fields are decoded once for the printed message and
  once for the reading. An exception of the decoder leaves the handler before anything
  is emitted or put.
\<close>

definition notification_handler :: "byte list \<Rightarrow> string \<Rightarrow> world \<Rightarrow> decode_error + world" where
  "notification_handler data now w =
     (case dig data of Inl e \<Rightarrow> Inl e | Inr msg \<Rightarrow>
      case dig data of Inl e \<Rightarrow> Inl e | Inr (ts, x, y, z) \<Rightarrow>
        let acc_data = \<lparr>timestamp = ts, timestamp_local = now, ax = x, ay = y, az = z,
                         fall_state = annotation_fall_state w\<rparr>
        in Inr (put (Some acc_data) (w\<lparr>emitted := emitted w @ [acc_data]\<rparr>)))"

text \<open>
  One event. The transport runs each notification's handler as a task of its own: an
  exception ends that invocation only, and is kept with the task.
\<close>

definition deliver :: "event \<Rightarrow> world \<Rightarrow> world" where
  "deliver ev w =
     (case ev of
        Notification data now \<Rightarrow>
          (case notification_handler data now w of
             Inl e \<Rightarrow> w\<lparr>handler_errors := handler_errors w @ [e]\<rparr>
           | Inr w' \<Rightarrow> w')
      | FallButtonClicked \<Rightarrow> fall_button_clicked w
      | NotFallButtonClicked \<Rightarrow> not_fall_button_clicked w)"

fun deliver_all :: "event list \<Rightarrow> world \<Rightarrow> world" where
  "deliver_all [] w = w"
| "deliver_all (ev # evs) w = deliver_all evs (deliver ev w)"

definition ascii :: "string \<Rightarrow> byte list" where
  "ascii s = map (\<lambda>c. of_nat (of_char c)) s"

text \<open>Lines 149-163: after the disconnect event, up to the sentinel.\<close>

definition teardown :: "transport \<Rightarrow> world \<Rightarrow> outcome \<times> world" where
  "teardown env w =
     (if is_connected env then
        (let w1 = call (WriteGattChar WRITE_CHARACTERISTIC_UUID [2, 99] True) w in
         if \<not> unsubscribe_ok env then (Raised WriteFailed, w1)
         else
           let w2 = call (StopNotify NOTIFY_CHARACTERISTIC_UUID) w1 in
           if \<not> stop_notify_ok env then (Raised StopNotifyFailed, w2)
           else (Returned, put None w2))
      else (Returned, put None w))"

text \<open>
  Lines 124-165: the body of the \<^verbatim>\<open>async with\<close> block. Installing the SIGINT
  handler (line 126) raises off the main thread, before any notification is started. The
  handlers and the disconnect callback only set the disconnect event; whether it is ever
  set is the environment's \<^verbatim>\<open>disconnect_set\<close>, and a session whose event is never set
  stays suspended in \<^verbatim>\<open>disconnected_event.wait()\<close>.
\<close>

definition client_block :: "transport \<Rightarrow> world \<Rightarrow> outcome \<times> world" where
  "client_block env w =
     (if \<not> main_thread env then (Raised SignalFailed, w)
      else
        let w1 = call (StartNotify NOTIFY_CHARACTERISTIC_UUID) w in
        if \<not> start_notify_ok env then (Raised StartNotifyFailed, w1)
        else
          let w2 = call (WriteGattChar WRITE_CHARACTERISTIC_UUID
                           ([1, 99] @ ascii ''/Meas/Acc/13'') True) w1 in
          if \<not> subscribe_ok env then (Raised WriteFailed, w2)
          else
            let w3 = deliver_all (events env) w2 in
            if \<not> disconnect_set env then (Suspended, w3)
            else teardown env w3)"

text \<open>
  \<^verbatim>\<open>run_ble_client\<close>. Entering the \<^verbatim>\<open>async with\<close> block connects, and raises when the
  connection fails. Leaving it, by its end (after the sentinel is put, line 163) or by an
  exception, disconnects; when the disconnection raises, that exception is the one that
  leaves the session.
\<close>

definition run_ble_client :: "string \<Rightarrow> transport \<Rightarrow> world \<Rightarrow> outcome \<times> world" where
  "run_ble_client end_of_serial env w =
     (case discovered env of
        Inl e \<Rightarrow> (Raised e, w)
      | Inr devices \<Rightarrow>
          (case find_device devices end_of_serial of
             Some addr \<Rightarrow>
               (let w1 = call (Connect addr) w in
                if \<not> connect_ok env then (Raised ConnectFailed, w1)
                else
                  (case client_block env w1 of
                     (Suspended, w2) \<Rightarrow> (Suspended, w2)
                   | (r, w2) \<Rightarrow>
                       let w3 = call Disconnect w2 in
                       if \<not> disconnect_ok env then (Raised DisconnectFailed, w3)
                       else (r, w3)))
           | None \<Rightarrow> (Returned, put None w)))"

text \<open>
  \<^verbatim>\<open>main\<close>: the session and the sink on one fresh queue. DATA_POINTS is a global of the
  module that \<^verbatim>\<open>main\<close> does not reset, and the program calls \<^verbatim>\<open>main\<close> more than once
  (lines 194 and 213): the sink starts from the DATA_POINTS it finds, and the session from
  the state it finds, but for the queue. Runs are taken one after the other: a run that
  overlaps another in time shares DATA_POINTS with it, which a sequential model does not
  show. The result is the session's outcome, its final
  state and the sink. The sink consumes what the session has put, the sentinel during the
  sleep of line 165, before the block is left; when the session raises or stays suspended
  without a sentinel on the queue, the sink is left waiting in \<^verbatim>\<open>queue.get()\<close> (and
  is cancelled when \<^verbatim>\<open>asyncio.run\<close> ends with the session's exception).
\<close>

definition main ::
  "string \<Rightarrow> transport \<Rightarrow> acceleration list \<Rightarrow> world \<Rightarrow> outcome \<times> world \<times> sink" where
  "main end_of_serial env DATA_POINTS w0 =
     (case run_ble_client end_of_serial env (w0\<lparr>queue := []\<rparr>) of
        (r, w) \<Rightarrow> (r, w, run_queue_consumer DATA_POINTS (queue w)))"


subsection \<open>Auxiliary facts\<close>

lemma endswith_suffix: "endswith s suf = suffix suf s"
  unfolding endswith_def
  by (metis append_eq_conv_conj append_take_drop_id diff_add_inverse2 length_append suffix_def suffix_length_le)

lemma find_device_find:
  "find_device ds suf =
     map_option address
       (List.find (\<lambda>d. case name d of None \<Rightarrow> False | Some n \<Rightarrow> n \<noteq> [] \<and> suffix suf n) ds)"
  by (induction ds) (simp_all add: endswith_suffix split: option.splits)

lemma run_queue_consumer_sentinel:
  "run_queue_consumer dp (map Some rs @ None # rest) =
     \<lparr>data_points = dp @ rs, files = [save_as_csv (dp @ rs)], returned = True,
      unconsumed = rest\<rparr>"
  by (induction rs arbitrary: dp) simp_all

lemma run_queue_consumer_no_sentinel:
  "run_queue_consumer dp (map Some rs) =
     \<lparr>data_points = dp @ rs, files = [], returned = False, unconsumed = []\<rparr>"
  by (induction rs arbitrary: dp) simp_all

lemma deliver_all_append: "deliver_all (xs @ ys) w = deliver_all ys (deliver_all xs w)"
  by (induction xs arbitrary: w) simp_all

lemma dig_fails_iff: "(dig data = Inl OutOfBounds) = (length data < 18)"
  by (simp add: dig_def get_uint_32_def get_float_32_def)

lemma deliver_trace: "trace (deliver ev w) = trace w"
  by (auto simp: deliver_def notification_handler_def put_def fall_button_clicked_def
      not_fall_button_clicked_def Let_def split: event.splits sum.splits prod.splits)

lemma deliver_all_trace: "trace (deliver_all evs w) = trace w"
  by (induction evs arbitrary: w) (simp_all add: deliver_trace)

lemma deliver_queue: "\<exists>rs. queue (deliver ev w) = queue w @ map Some rs"
proof (cases ev)
  case (Notification data now)
  show ?thesis
  proof (cases "notification_handler data now w")
    case (Inl e)
    then have "queue (deliver ev w) = queue w @ map Some []"
      by (simp add: deliver_def Notification)
    then show ?thesis by blast
  next
    case (Inr w')
    then obtain a where "queue w' = queue w @ map Some [a]"
      by (auto simp: notification_handler_def put_def Let_def split: sum.splits prod.splits)
    then show ?thesis
      using Inr by (metis (no_types, lifting) Notification deliver_def event.simps(8) sum.simps(6))
  qed
next
  case FallButtonClicked
  then have "queue (deliver ev w) = queue w @ map Some []"
    by (simp add: deliver_def fall_button_clicked_def)
  then show ?thesis by blast
next
  case NotFallButtonClicked
  then have "queue (deliver ev w) = queue w @ map Some []"
    by (simp add: deliver_def not_fall_button_clicked_def)
  then show ?thesis by blast
qed

lemma deliver_all_queue: "\<exists>rs. queue (deliver_all evs w) = queue w @ map Some rs"
proof (induction evs arbitrary: w)
  case Nil
  have "queue (deliver_all [] w) = queue w @ map Some []" by simp
  then show ?case by blast
next
  case (Cons ev evs)
  obtain r1 where r1: "queue (deliver ev w) = queue w @ map Some r1"
    using deliver_queue by blast
  obtain r2 where r2: "queue (deliver_all evs (deliver ev w)) = queue (deliver ev w) @ map Some r2"
    using Cons.IH by blast
  have "queue (deliver_all (ev # evs) w) = queue w @ map Some (r1 @ r2)"
    by (simp add: r1 r2)
  then show ?case by blast
qed

lemma take4_drop:
  "n + 4 \<le> length buf \<Longrightarrow>
     take 4 (drop n buf) = [buf ! n, buf ! (n + 1), buf ! (n + 2), buf ! (n + 3)]"
  by (auto simp: list_eq_iff_nth_eq less_Suc_eq numeral_eq_Suc add.commute)

lemma le_nat_bound: "le_nat bs < 256 ^ length bs"
proof (induction bs)
  case Nil
  show ?case by simp
next
  case (Cons b bs)
  have "unat b < 256" using unsigned_less [of b] by simp
  then have "unat b + 256 * le_nat bs < 256 + 256 * le_nat bs" by simp
  also have "\<dots> = 256 * Suc (le_nat bs)" by simp
  also have "\<dots> \<le> 256 * 256 ^ length bs"
    using Cons.IH by (simp only: mult_le_cancel1 Suc_le_eq) simp
  finally show ?case by simp
qed

lemma take_drop_cong:
  assumes "take (n + k) xs = take (n + k) ys"
  shows "take k (drop n xs) = take k (drop n ys)"
proof -
  have "take k (drop n xs) = drop n (take (n + k) xs)"
    by (simp add: drop_take)
  also have "\<dots> = drop n (take (n + k) ys)" using assms by simp
  also have "\<dots> = take k (drop n ys)" by (simp add: drop_take)
  finally show ?thesis .
qed

lemma dig_fields:
  assumes "18 \<le> length data"
  shows "dig data =
     Inr (le_nat [data ! 2, data ! 3, data ! 4, data ! 5],
          binary32 (le_nat [data ! 6, data ! 7, data ! 8, data ! 9]),
          binary32 (le_nat [data ! 10, data ! 11, data ! 12, data ! 13]),
          binary32 (le_nat [data ! 14, data ! 15, data ! 16, data ! 17]))"
proof -
  have t: "take 4 (drop 2 data) = [data ! 2, data ! 3, data ! 4, data ! 5]"
    using assms take4_drop [of 2 data] by simp
  have x: "take 4 (drop 6 data) = [data ! 6, data ! 7, data ! 8, data ! 9]"
    using assms take4_drop [of 6 data] by simp
  have y: "take 4 (drop 10 data) = [data ! 10, data ! 11, data ! 12, data ! 13]"
    using assms take4_drop [of 10 data] by simp
  have z: "take 4 (drop 14 data) = [data ! 14, data ! 15, data ! 16, data ! 17]"
    using assms take4_drop [of 14 data] by simp
  show ?thesis
    using assms by (simp add: dig_def get_uint_32_def get_float_32_def t x y z del: le_nat.simps)
qed

lemma call_handler_errors:
  "call a (w\<lparr>handler_errors := h\<rparr>) = (call a w)\<lparr>handler_errors := h\<rparr>"
  by (simp add: call_def)

lemma put_handler_errors:
  "put x (w\<lparr>handler_errors := h\<rparr>) = (put x w)\<lparr>handler_errors := h\<rparr>"
  by (simp add: put_def)

lemma teardown_handler_errors:
  "teardown env (w\<lparr>handler_errors := h\<rparr>) =
     (case teardown env w of (r, w') \<Rightarrow> (r, w'\<lparr>handler_errors := h\<rparr>))"
  by (simp add: teardown_def Let_def call_handler_errors put_handler_errors)

lemma deliver_handler_errors:
  "\<exists>h'. deliver ev (w\<lparr>handler_errors := h\<rparr>) = (deliver ev w)\<lparr>handler_errors := h'\<rparr>"
proof (cases ev)
  case (Notification data now)
  show ?thesis
  proof (cases "dig data")
    case (Inl e)
    then have "deliver ev (w\<lparr>handler_errors := h\<rparr>) =
        (deliver ev w)\<lparr>handler_errors := h @ [e]\<rparr>"
      by (simp add: Notification deliver_def notification_handler_def)
    then show ?thesis by blast
  next
    case (Inr v)
    then have "deliver ev (w\<lparr>handler_errors := h\<rparr>) = (deliver ev w)\<lparr>handler_errors := h\<rparr>"
      by (cases v) (simp add: Notification deliver_def notification_handler_def put_def Let_def)
    then show ?thesis by blast
  qed
next
  case FallButtonClicked
  then have "deliver ev (w\<lparr>handler_errors := h\<rparr>) = (deliver ev w)\<lparr>handler_errors := h\<rparr>"
    by (simp add: deliver_def fall_button_clicked_def)
  then show ?thesis by blast
next
  case NotFallButtonClicked
  then have "deliver ev (w\<lparr>handler_errors := h\<rparr>) = (deliver ev w)\<lparr>handler_errors := h\<rparr>"
    by (simp add: deliver_def not_fall_button_clicked_def)
  then show ?thesis by blast
qed

lemma deliver_all_handler_errors:
  "\<exists>h'. deliver_all evs (w\<lparr>handler_errors := h\<rparr>) = (deliver_all evs w)\<lparr>handler_errors := h'\<rparr>"
proof (induction evs arbitrary: w h)
  case Nil
  have "deliver_all [] (w\<lparr>handler_errors := h\<rparr>) = (deliver_all [] w)\<lparr>handler_errors := h\<rparr>"
    by simp
  then show ?case by blast
next
  case (Cons ev evs)
  obtain h1 where h1:
    "deliver ev (w\<lparr>handler_errors := h\<rparr>) = (deliver ev w)\<lparr>handler_errors := h1\<rparr>"
    using deliver_handler_errors by blast
  obtain h2 where h2:
    "deliver_all evs ((deliver ev w)\<lparr>handler_errors := h1\<rparr>) =
       (deliver_all evs (deliver ev w))\<lparr>handler_errors := h2\<rparr>"
    using Cons.IH by blast
  have "deliver_all (ev # evs) (w\<lparr>handler_errors := h\<rparr>) =
      (deliver_all (ev # evs) w)\<lparr>handler_errors := h2\<rparr>"
    by (simp add: h1 h2)
  then show ?case by blast
qed

lemma deliver_malformed:
  "length data < 18 \<Longrightarrow>
     deliver (Notification data now) w = w\<lparr>handler_errors := handler_errors w @ [OutOfBounds]\<rparr>"
  using dig_fails_iff [of data] by (simp add: deliver_def notification_handler_def)

lemma deliver_all_malformed:
  assumes "length data < 18"
  shows "\<exists>h. deliver_all (pre @ Notification data now # post) w =
              (deliver_all (pre @ post) w)\<lparr>handler_errors := h\<rparr>"
proof -
  obtain h where
    "deliver_all post ((deliver_all pre w)\<lparr>handler_errors :=
        handler_errors (deliver_all pre w) @ [OutOfBounds]\<rparr>)
     = (deliver_all post (deliver_all pre w))\<lparr>handler_errors := h\<rparr>"
    using deliver_all_handler_errors by blast
  then have "deliver_all (pre @ Notification data now # post) w =
              (deliver_all (pre @ post) w)\<lparr>handler_errors := h\<rparr>"
    using assms by (simp add: deliver_all_append deliver_malformed)
  then show ?thesis by blast
qed

lemma client_block_handler_errors:
  assumes "deliver_all evs1 (call (WriteGattChar WRITE_CHARACTERISTIC_UUID
                         ([1, 99] @ ascii ''/Meas/Acc/13'') True)
                 (call (StartNotify NOTIFY_CHARACTERISTIC_UUID) w)) =
           (deliver_all evs2 (call (WriteGattChar WRITE_CHARACTERISTIC_UUID
                         ([1, 99] @ ascii ''/Meas/Acc/13'') True)
                 (call (StartNotify NOTIFY_CHARACTERISTIC_UUID) w)))\<lparr>handler_errors := h\<rparr>"
  shows "\<exists>h'. client_block (env\<lparr>events := evs1\<rparr>) w =
           (case client_block (env\<lparr>events := evs2\<rparr>) w of (r, w') \<Rightarrow> (r, w'\<lparr>handler_errors := h'\<rparr>))"
proof (cases "main_thread env \<and> start_notify_ok env \<and> subscribe_ok env")
  case False
  then have "client_block (env\<lparr>events := evs1\<rparr>) w =
     (case client_block (env\<lparr>events := evs2\<rparr>) w of
        (r, w') \<Rightarrow> (r, w'\<lparr>handler_errors := handler_errors w\<rparr>))"
    by (auto simp: client_block_def Let_def call_def)
  then show ?thesis by blast
next
  case True
  show ?thesis
  proof (cases "disconnect_set env")
    case False
    then have "client_block (env\<lparr>events := evs1\<rparr>) w =
      (case client_block (env\<lparr>events := evs2\<rparr>) w of (r, w') \<Rightarrow> (r, w'\<lparr>handler_errors := h\<rparr>))"
      using True assms by (simp add: client_block_def Let_def)
    then show ?thesis by blast
  next
    case d: True
    have t: "teardown (env\<lparr>events := e\<rparr>) x = teardown env x" for e x
      by (simp add: teardown_def Let_def)
    have "client_block (env\<lparr>events := evs1\<rparr>) w =
      (case client_block (env\<lparr>events := evs2\<rparr>) w of (r, w') \<Rightarrow> (r, w'\<lparr>handler_errors := h\<rparr>))"
      using True d assms by (simp add: client_block_def Let_def t teardown_handler_errors)
    then show ?thesis by blast
  qed
qed

lemma run_ble_client_handler_errors:
  assumes "\<And>w. \<exists>h. deliver_all evs1 w = (deliver_all evs2 w)\<lparr>handler_errors := h\<rparr>"
  shows "\<exists>h'. run_ble_client suf (env\<lparr>events := evs1\<rparr>) w =
           (case run_ble_client suf (env\<lparr>events := evs2\<rparr>) w of
              (r, w') \<Rightarrow> (r, w'\<lparr>handler_errors := h'\<rparr>))"
proof (cases "discovered env")
  case (Inl e)
  then have "run_ble_client suf (env\<lparr>events := evs1\<rparr>) w =
           (case run_ble_client suf (env\<lparr>events := evs2\<rparr>) w of
              (r, w') \<Rightarrow> (r, w'\<lparr>handler_errors := handler_errors w\<rparr>))"
    by (simp add: run_ble_client_def)
  then show ?thesis by blast
next
  case (Inr ds)
  show ?thesis
  proof (cases "find_device ds suf")
    case None
    then have "run_ble_client suf (env\<lparr>events := evs1\<rparr>) w =
           (case run_ble_client suf (env\<lparr>events := evs2\<rparr>) w of
              (r, w') \<Rightarrow> (r, w'\<lparr>handler_errors := handler_errors w\<rparr>))"
      using Inr by (simp add: run_ble_client_def put_def)
    then show ?thesis by blast
  next
    case (Some a)
    show ?thesis
    proof (cases "connect_ok env")
      case False
      then have "run_ble_client suf (env\<lparr>events := evs1\<rparr>) w =
           (case run_ble_client suf (env\<lparr>events := evs2\<rparr>) w of
              (r, w') \<Rightarrow> (r, w'\<lparr>handler_errors := handler_errors w\<rparr>))"
        using Inr Some by (simp add: run_ble_client_def call_def)
      then show ?thesis by blast
    next
      case True
      obtain h where "deliver_all evs1 (call (WriteGattChar WRITE_CHARACTERISTIC_UUID
                         ([1, 99] @ ascii ''/Meas/Acc/13'') True)
                 (call (StartNotify NOTIFY_CHARACTERISTIC_UUID) (call (Connect a) w))) =
           (deliver_all evs2 (call (WriteGattChar WRITE_CHARACTERISTIC_UUID
                         ([1, 99] @ ascii ''/Meas/Acc/13'') True)
                 (call (StartNotify NOTIFY_CHARACTERISTIC_UUID) (call (Connect a) w))))\<lparr>handler_errors := h\<rparr>"
        using assms by blast
      then obtain h' where c: "client_block (env\<lparr>events := evs1\<rparr>) (call (Connect a) w) =
           (case client_block (env\<lparr>events := evs2\<rparr>) (call (Connect a) w) of
              (r, w') \<Rightarrow> (r, w'\<lparr>handler_errors := h'\<rparr>))"
        using client_block_handler_errors by blast
      obtain r w2 where e: "client_block (env\<lparr>events := evs2\<rparr>) (call (Connect a) w) = (r, w2)"
        by (cases "client_block (env\<lparr>events := evs2\<rparr>) (call (Connect a) w)") blast
      have "run_ble_client suf (env\<lparr>events := evs1\<rparr>) w =
           (case run_ble_client suf (env\<lparr>events := evs2\<rparr>) w of
              (r, w') \<Rightarrow> (r, w'\<lparr>handler_errors := h'\<rparr>))"
        using Inr Some True
        by (cases r) (simp_all add: run_ble_client_def Let_def c e call_handler_errors)
      then show ?thesis by blast
    qed
  qed
qed

lemmas run_simps =
  run_ble_client_def client_block_def teardown_def deliver_def notification_handler_def
  dig_def get_uint_32_def get_float_32_def binary32_def put_def call_def Let_def
  fall_button_clicked_def not_fall_button_clicked_def initial_world_def SENSOR_ID_def
  endswith_def main_def save_as_csv_def as_csv_field_def head_def

lemma deliver_all_queue_grows: "\<exists>later. queue (deliver_all evs w) = queue w @ later"
  using deliver_all_queue [of evs w] by blast

lemma deliver_annotation_notification:
  "annotation_fall_state (deliver (Notification data now) w) = annotation_fall_state w"
  by (auto simp: deliver_def notification_handler_def put_def Let_def split: sum.splits prod.splits)

lemma call_queue: "queue (call a w) = queue w"
  by (simp add: call_def)

lemma call_trace: "trace (call a w) = trace w @ [a]"
  by (simp add: call_def)

lemma put_trace: "trace (put x w) = trace w"
  by (simp add: put_def)

lemma teardown_queue:
  "teardown env w = (r, w') \<Longrightarrow>
     r \<noteq> Suspended \<and> queue w' = queue w @ (if r = Returned then [None] else [])"
  by (auto simp: teardown_def Let_def call_def put_def split: if_splits)

lemma teardown_returned:
  "(fst (teardown env w) = Returned) =
     (is_connected env \<longrightarrow> unsubscribe_ok env \<and> stop_notify_ok env)"
  by (simp add: teardown_def Let_def)

lemma client_block_queue:
  assumes "client_block env w = (r, w')"
  shows "\<exists>rs. queue w' = queue w @ map Some rs @ (if r = Returned then [None] else [])"
proof (cases "main_thread env \<and> start_notify_ok env \<and> subscribe_ok env")
  case False
  then have "queue w' = queue w @ map Some [] @ (if r = Returned then [None] else [])"
    using assms by (auto simp: client_block_def Let_def call_def split: if_splits)
  then show ?thesis by blast
next
  case True
  define w2 where "w2 = call (WriteGattChar WRITE_CHARACTERISTIC_UUID
                         ([1, 99] @ ascii ''/Meas/Acc/13'') True)
                 (call (StartNotify NOTIFY_CHARACTERISTIC_UUID) w)"
  have cb: "client_block env w =
      (if \<not> disconnect_set env then (Suspended, deliver_all (events env) w2)
       else teardown env (deliver_all (events env) w2))"
    unfolding client_block_def Let_def w2_def using True by simp
  have "queue w2 = queue w"
    by (simp add: w2_def call_queue)
  then obtain rs where rs: "queue (deliver_all (events env) w2) = queue w @ map Some rs"
    using deliver_all_queue [of "events env" w2] by auto
  show ?thesis
  proof (cases "disconnect_set env")
    case False
    then have "queue w' = queue w @ map Some rs @ (if r = Returned then [None] else [])"
      using assms rs by (auto simp: cb)
    then show ?thesis by blast
  next
    case d: True
    then have "teardown env (deliver_all (events env) w2) = (r, w')"
      using assms by (simp add: cb)
    then have "queue w' = queue w @ map Some rs @ (if r = Returned then [None] else [])"
      using teardown_queue rs by fastforce
    then show ?thesis by blast
  qed
qed

lemma run_ble_client_queue:
  assumes "run_ble_client suf env w = (r, w')"
  shows "\<exists>rs b. queue w' = queue w @ map Some rs @ (if b then [None] else [])
           \<and> (r = Returned \<longrightarrow> b)"
proof (cases "discovered env")
  case (Inl e)
  then have "queue w' = queue w @ map Some [] @ (if False then [None] else [])
      \<and> (r = Returned \<longrightarrow> False)"
    using assms by (auto simp: run_ble_client_def)
  then show ?thesis by blast
next
  case (Inr ds)
  show ?thesis
  proof (cases "find_device ds suf")
    case None
    then have "queue w' = queue w @ map Some [] @ (if True then [None] else [])
        \<and> (r = Returned \<longrightarrow> True)"
      using assms Inr by (auto simp: run_ble_client_def put_def)
    then show ?thesis by blast
  next
    case (Some a)
    show ?thesis
    proof (cases "connect_ok env")
      case False
      then have "queue w' = queue w @ map Some [] @ (if False then [None] else [])
          \<and> (r = Returned \<longrightarrow> False)"
        using assms Inr Some by (auto simp: run_ble_client_def call_def)
      then show ?thesis by blast
    next
      case True
      obtain r2 w2 where c: "client_block env (call (Connect a) w) = (r2, w2)"
        by (cases "client_block env (call (Connect a) w)") blast
      obtain rs where rs:
        "queue w2 = queue w @ map Some rs @ (if r2 = Returned then [None] else [])"
        using client_block_queue [OF c] by (auto simp: call_queue)
      have "(r = Returned \<longrightarrow> r2 = Returned) \<and> queue w' = queue w2"
        using assms Inr Some True c
        by (cases r2) (auto simp: run_ble_client_def Let_def call_queue split: if_splits)
      then have "queue w' = queue w @ map Some rs @ (if r2 = Returned then [None] else [])
          \<and> (r = Returned \<longrightarrow> r2 = Returned)"
        using rs by simp
      then show ?thesis by blast
    qed
  qed
qed

lemma run_ble_client_subscribed:
  assumes "discovered env = Inr ds" and "find_device ds suf = Some a" and "connect_ok env"
    and "main_thread env" and "start_notify_ok env" and "subscribe_ok env"
    and "disconnect_set env"
  shows "run_ble_client suf env w =
     (case teardown env
        (deliver_all (events env)
          (call (WriteGattChar WRITE_CHARACTERISTIC_UUID ([1, 99] @ ascii ''/Meas/Acc/13'') True)
            (call (StartNotify NOTIFY_CHARACTERISTIC_UUID) (call (Connect a) w)))) of
        (r, w') \<Rightarrow>
          (if disconnect_ok env then r else Raised DisconnectFailed, call Disconnect w'))"
proof -
  obtain r w' where t: "teardown env
        (deliver_all (events env)
          (call (WriteGattChar WRITE_CHARACTERISTIC_UUID ([1, 99] @ ascii ''/Meas/Acc/13'') True)
            (call (StartNotify NOTIFY_CHARACTERISTIC_UUID) (call (Connect a) w)))) = (r, w')"
    by (cases "teardown env
        (deliver_all (events env)
          (call (WriteGattChar WRITE_CHARACTERISTIC_UUID ([1, 99] @ ascii ''/Meas/Acc/13'') True)
            (call (StartNotify NOTIFY_CHARACTERISTIC_UUID) (call (Connect a) w))))") blast
  have ns: "r \<noteq> Suspended" using teardown_queue [OF t] by simp
  have cb: "client_block env (call (Connect a) w) = (r, w')"
    unfolding client_block_def Let_def using assms t by simp
  show ?thesis
    unfolding run_ble_client_def Let_def using assms ns t
    by (cases r) (simp_all add: cb)
qed

lemma teardown_trace_no_connect:
  "teardown env w = (r, w') \<Longrightarrow> \<exists>t. trace w' = trace w @ t \<and> (\<forall>b. Connect b \<notin> set t)"
  by (auto simp: teardown_def Let_def call_trace put_trace split: if_splits)

lemma client_block_trace_no_connect:
  assumes "client_block env w = (r, w')"
  shows "\<exists>t. trace w' = trace w @ t \<and> (\<forall>b. Connect b \<notin> set t)"
proof (cases "main_thread env \<and> start_notify_ok env \<and> subscribe_ok env \<and> disconnect_set env")
  case False
  then show ?thesis
    using assms
    by (auto simp: client_block_def Let_def call_trace deliver_all_trace split: if_splits)
next
  case True
  define w3 where "w3 = deliver_all (events env)
      (call (WriteGattChar WRITE_CHARACTERISTIC_UUID ([1, 99] @ ascii ''/Meas/Acc/13'') True)
        (call (StartNotify NOTIFY_CHARACTERISTIC_UUID) w))"
  have tr: "trace w3 = trace w @ [StartNotify NOTIFY_CHARACTERISTIC_UUID,
      WriteGattChar WRITE_CHARACTERISTIC_UUID ([1, 99] @ ascii ''/Meas/Acc/13'') True]"
    by (simp add: w3_def deliver_all_trace call_trace)
  have "teardown env w3 = (r, w')"
    using assms True unfolding client_block_def Let_def w3_def by simp
  then obtain t where "trace w' = trace w3 @ t" and "\<forall>b. Connect b \<notin> set t"
    using teardown_trace_no_connect by blast
  then have "trace w' = trace w @ ([StartNotify NOTIFY_CHARACTERISTIC_UUID,
      WriteGattChar WRITE_CHARACTERISTIC_UUID ([1, 99] @ ascii ''/Meas/Acc/13'') True] @ t)
      \<and> (\<forall>b. Connect b \<notin> set ([StartNotify NOTIFY_CHARACTERISTIC_UUID,
      WriteGattChar WRITE_CHARACTERISTIC_UUID ([1, 99] @ ascii ''/Meas/Acc/13'') True] @ t))"
    by (simp add: tr)
  then show ?thesis by blast
qed

lemma run_ble_client_connects:
  assumes "discovered env = Inr ds" and "find_device ds suf = Some a"
    and "run_ble_client suf env w = (r, w')"
  shows "\<exists>t. trace w' = trace w @ Connect a # t \<and> (\<forall>b. Connect b \<notin> set t)"
proof (cases "connect_ok env")
  case False
  then have "trace w' = trace w @ Connect a # [] \<and> (\<forall>b. Connect b \<notin> set [])"
    using assms by (auto simp: run_ble_client_def call_trace)
  then show ?thesis by blast
next
  case True
  obtain r2 w2 where c: "client_block env (call (Connect a) w) = (r2, w2)"
    by (cases "client_block env (call (Connect a) w)") blast
  obtain t where t: "trace w2 = trace w @ Connect a # t" and n: "\<forall>b. Connect b \<notin> set t"
    using client_block_trace_no_connect [OF c] by (auto simp: call_trace)
  have "trace w' = trace w2 \<or> trace w' = trace w2 @ [Disconnect]"
    using assms True c
    by (cases r2) (auto simp: run_ble_client_def Let_def call_trace split: if_splits)
  then have "(trace w' = trace w @ Connect a # t \<and> (\<forall>b. Connect b \<notin> set t))
      \<or> (trace w' = trace w @ Connect a # (t @ [Disconnect])
          \<and> (\<forall>b. Connect b \<notin> set (t @ [Disconnect])))"
    using t n by auto
  then show ?thesis by blast
qed

lemma find_device_skip_nameless:
  "name d = None \<or> name d = Some [] \<Longrightarrow>
     find_device (pre @ d # post) suf = find_device (pre @ post) suf"
  by (induction pre) (auto split: option.splits)

lemma find_device_filter_named:
  "find_device (filter (\<lambda>d. name d \<noteq> None \<and> name d \<noteq> Some []) ds) suf = find_device ds suf"
  by (induction ds) (auto split: option.splits)

lemma find_device_Some:
  "find_device ds suf = Some a \<Longrightarrow>
     \<exists>d \<in> set ds. a = address d \<and> (\<exists>n. name d = Some n \<and> n \<noteq> [] \<and> suffix suf n)"
  by (induction ds) (auto simp: endswith_suffix split: option.splits if_splits)

section \<open>The claims\<close>

text \<open>
  Claim C1, as amended. The sink writes its file exactly when the sentinel is put: then
  the sentinel is the last item, and the file is the header row followed by one row per
  reading of DATA_POINTS. The sentinel is put when discovery finds no matching device
  (it is then the only item, nothing of the transport is called, and from an empty
  DATA_POINTS the file is the header row alone), whenever the session gets through its
  teardown, and on every run that returns. When the connection fails, the exception
  leaves the session: nothing is put on the queue, and the sink writes no file.
\<close>

theorem sentinel_and_flush_paths:
  "main suf env dp w0 = (r, w, s) \<Longrightarrow>
     (\<exists>rs. (queue w = map Some rs @ [None] \<and> returned s
              \<and> files s =
                  [[Str ''timestamp'', Str ''timestamp_local'', Str ''ax'', Str ''ay'',
                    Str ''az'', Str ''fall_state''] # map as_csv_field (dp @ rs)])
           \<or> (queue w = map Some rs \<and> \<not> returned s \<and> files s = []))
     \<and> (r = Returned \<longrightarrow> None \<in> set (queue w))
     \<and> (discovered env = Inr ds \<and> find_device ds suf = None \<longrightarrow>
          r = Returned \<and> queue w = [None] \<and> trace w = trace w0 \<and> returned s
          \<and> files s =
              [[Str ''timestamp'', Str ''timestamp_local'', Str ''ax'', Str ''ay'',
                Str ''az'', Str ''fall_state''] # map as_csv_field dp])
     \<and> (discovered env = Inr ds \<and> find_device ds suf = Some a \<and> connect_ok env
          \<and> main_thread env \<and> start_notify_ok env \<and> subscribe_ok env \<and> disconnect_set env
          \<and> (is_connected env \<longrightarrow> unsubscribe_ok env \<and> stop_notify_ok env) \<longrightarrow>
          None \<in> set (queue w) \<and> returned s \<and> length (files s) = 1
          \<and> (disconnect_ok env \<longrightarrow> r = Returned))
     \<and> (discovered env = Inr ds \<and> find_device ds suf = Some a \<and> \<not> connect_ok env \<longrightarrow>
          r = Raised ConnectFailed \<and> queue w = [] \<and> trace w = trace w0 @ [Connect a]
          \<and> files s = [] \<and> \<not> returned s)"
proof -
  assume m: "main suf env dp w0 = (r, w, s)"
  then have run: "run_ble_client suf env (w0\<lparr>queue := []\<rparr>) = (r, w)"
    and s: "s = run_queue_consumer dp (queue w)"
    by (auto simp: main_def split: prod.splits)
  obtain rs b where rs: "queue w = map Some rs @ (if b then [None] else [])"
    and b: "r = Returned \<longrightarrow> b"
    using run_ble_client_queue [OF run] by auto
  have a1: "(queue w = map Some rs @ [None] \<and> returned s
              \<and> files s =
                  [[Str ''timestamp'', Str ''timestamp_local'', Str ''ax'', Str ''ay'',
                    Str ''az'', Str ''fall_state''] # map as_csv_field (dp @ rs)])
           \<or> (queue w = map Some rs \<and> \<not> returned s \<and> files s = [])"
    using rs s
    by (cases b)
      (simp_all add: run_queue_consumer_sentinel run_queue_consumer_no_sentinel
        save_as_csv_def head_def)
  then have a: "\<exists>rs. (queue w = map Some rs @ [None] \<and> returned s
              \<and> files s =
                  [[Str ''timestamp'', Str ''timestamp_local'', Str ''ax'', Str ''ay'',
                    Str ''az'', Str ''fall_state''] # map as_csv_field (dp @ rs)])
           \<or> (queue w = map Some rs \<and> \<not> returned s \<and> files s = [])"
    by blast
  have a2: "None \<in> set (queue w) \<Longrightarrow> returned s \<and> length (files s) = 1"
    using a1 by auto
  have b': "r = Returned \<longrightarrow> None \<in> set (queue w)"
    using rs b by simp
  have c: "discovered env = Inr ds \<and> find_device ds suf = None \<longrightarrow>
          r = Returned \<and> queue w = [None] \<and> trace w = trace w0 \<and> returned s
          \<and> files s =
              [[Str ''timestamp'', Str ''timestamp_local'', Str ''ax'', Str ''ay'',
                Str ''az'', Str ''fall_state''] # map as_csv_field dp]"
    using run s by (auto simp: run_ble_client_def put_def save_as_csv_def head_def)
  have d: "discovered env = Inr ds \<and> find_device ds suf = Some a \<and> connect_ok env
          \<and> main_thread env \<and> start_notify_ok env \<and> subscribe_ok env \<and> disconnect_set env
          \<and> (is_connected env \<longrightarrow> unsubscribe_ok env \<and> stop_notify_ok env) \<longrightarrow>
          None \<in> set (queue w) \<and> returned s \<and> length (files s) = 1
          \<and> (disconnect_ok env \<longrightarrow> r = Returned)"
  proof
    assume h: "discovered env = Inr ds \<and> find_device ds suf = Some a \<and> connect_ok env
          \<and> main_thread env \<and> start_notify_ok env \<and> subscribe_ok env \<and> disconnect_set env
          \<and> (is_connected env \<longrightarrow> unsubscribe_ok env \<and> stop_notify_ok env)"
    define w3 where "w3 = deliver_all (events env)
          (call (WriteGattChar WRITE_CHARACTERISTIC_UUID ([1, 99] @ ascii ''/Meas/Acc/13'') True)
            (call (StartNotify NOTIFY_CHARACTERISTIC_UUID)
              (call (Connect a) (w0\<lparr>queue := []\<rparr>))))"
    obtain rt wt where t: "teardown env w3 = (rt, wt)"
      by (cases "teardown env w3") blast
    have rt: "rt = Returned"
      using teardown_returned [of env w3] h t by simp
    have "run_ble_client suf env (w0\<lparr>queue := []\<rparr>) =
        (if disconnect_ok env then rt else Raised DisconnectFailed, call Disconnect wt)"
      using run_ble_client_subscribed [of env ds suf a "w0\<lparr>queue := []\<rparr>"] h t
      by (simp add: w3_def)
    then have r: "r = (if disconnect_ok env then Returned else Raised DisconnectFailed)"
      and w: "w = call Disconnect wt"
      using run rt by auto
    have "queue wt = queue w3 @ [None]"
      using teardown_queue [OF t] rt by simp
    then have "None \<in> set (queue w)"
      by (simp add: w call_queue)
    then show "None \<in> set (queue w) \<and> returned s \<and> length (files s) = 1
          \<and> (disconnect_ok env \<longrightarrow> r = Returned)"
      using a2 r by simp
  qed
  have e: "discovered env = Inr ds \<and> find_device ds suf = Some a \<and> \<not> connect_ok env \<longrightarrow>
          r = Raised ConnectFailed \<and> queue w = [] \<and> trace w = trace w0 @ [Connect a]
          \<and> files s = [] \<and> \<not> returned s"
    using run s by (auto simp: run_ble_client_def call_def)
  show ?thesis using a b' c d e by blast
qed

text \<open>
  Claim C1 at three runs: no matching device; a session that gets through its teardown
  and whose disconnection raises after the sentinel; a session that returns.
\<close>

theorem sentinel_and_flush_paths_witness:
  "main SENSOR_ID
     \<lparr>discovered = Inr [\<lparr>name = Some ''Movesense 111111111111'', address = ''A1''\<rparr>],
      connect_ok = False, main_thread = True, start_notify_ok = True, subscribe_ok = True,
      events = [], disconnect_set = True, is_connected = True, unsubscribe_ok = True,
      stop_notify_ok = True, disconnect_ok = True\<rparr> [] initial_world =
   (Returned,
    \<lparr>queue = [None], trace = [], emitted = [], annotation_fall_state = ''default'',
     handler_errors = []\<rparr>,
    \<lparr>data_points = [],
     files = [[[Str ''timestamp'', Str ''timestamp_local'', Str ''ax'', Str ''ay'', Str ''az'',
                Str ''fall_state'']]],
     returned = True, unconsumed = []\<rparr>)
   \<and> (case main SENSOR_ID
     \<lparr>discovered = Inr [\<lparr>name = Some ''Movesense 223430000278'', address = ''A2''\<rparr>],
      connect_ok = True, main_thread = True, start_notify_ok = True, subscribe_ok = True,
      events = [], disconnect_set = True, is_connected = True, unsubscribe_ok = True,
      stop_notify_ok = True, disconnect_ok = False\<rparr> [] initial_world of
        (r, w, s) \<Rightarrow> r = Raised DisconnectFailed \<and> queue w = [None] \<and> returned s
          \<and> files s = [[[Str ''timestamp'', Str ''timestamp_local'', Str ''ax'', Str ''ay'',
                          Str ''az'', Str ''fall_state'']]])
   \<and> fst (main SENSOR_ID
     \<lparr>discovered = Inr [\<lparr>name = Some ''Movesense 223430000278'', address = ''A2''\<rparr>],
      connect_ok = True, main_thread = True, start_notify_ok = True, subscribe_ok = True,
      events = [], disconnect_set = True, is_connected = False, unsubscribe_ok = True,
      stop_notify_ok = True, disconnect_ok = True\<rparr> [] initial_world) = Returned"
proof -
  let ?none = "[\<lparr>name = Some ''Movesense 111111111111'', address = ''A1''\<rparr>]"
  let ?one = "[\<lparr>name = Some ''Movesense 223430000278'', address = ''A2''\<rparr>]"
  let ?e1 = "\<lparr>discovered = Inr ?none,
      connect_ok = False, main_thread = True, start_notify_ok = True, subscribe_ok = True,
      events = [], disconnect_set = True, is_connected = True, unsubscribe_ok = True,
      stop_notify_ok = True, disconnect_ok = True\<rparr>"
  let ?e2 = "\<lparr>discovered = Inr ?one,
      connect_ok = True, main_thread = True, start_notify_ok = True, subscribe_ok = True,
      events = [], disconnect_set = True, is_connected = True, unsubscribe_ok = True,
      stop_notify_ok = True, disconnect_ok = False\<rparr>"
  let ?e3 = "\<lparr>discovered = Inr ?one,
      connect_ok = True, main_thread = True, start_notify_ok = True, subscribe_ok = True,
      events = [], disconnect_set = True, is_connected = False, unsubscribe_ok = True,
      stop_notify_ok = True, disconnect_ok = True\<rparr>"
  have f0: "find_device ?none SENSOR_ID = None"
    by (simp add: SENSOR_ID_def endswith_def)
  have f: "find_device ?one SENSOR_ID = Some ''A2''"
    by (simp add: SENSOR_ID_def endswith_def)
  obtain r1 w1 s1 where m1: "main SENSOR_ID ?e1 [] initial_world = (r1, w1, s1)"
    using prod_cases3 by blast
  have "r1 = Returned \<and> queue w1 = [None] \<and> trace w1 = [] \<and> returned s1
      \<and> files s1 = [[[Str ''timestamp'', Str ''timestamp_local'', Str ''ax'', Str ''ay'',
                       Str ''az'', Str ''fall_state'']]]"
    using sentinel_and_flush_paths [OF m1, of ?none "''A1''"] f0
    by (simp add: initial_world_def)
  moreover have "emitted w1 = [] \<and> annotation_fall_state w1 = ''default''
      \<and> handler_errors w1 = [] \<and> data_points s1 = [] \<and> unconsumed s1 = []"
    using m1 by (auto simp: run_simps)
  ultimately have one: "main SENSOR_ID ?e1 [] initial_world =
   (Returned,
    \<lparr>queue = [None], trace = [], emitted = [], annotation_fall_state = ''default'',
     handler_errors = []\<rparr>,
    \<lparr>data_points = [],
     files = [[[Str ''timestamp'', Str ''timestamp_local'', Str ''ax'', Str ''ay'', Str ''az'',
                Str ''fall_state'']]],
     returned = True, unconsumed = []\<rparr>)"
    by (simp add: m1 world.equality sink.equality)
  obtain r2 w2 s2 where m2: "main SENSOR_ID ?e2 [] initial_world = (r2, w2, s2)"
    using prod_cases3 by blast
  have "None \<in> set (queue w2) \<and> returned s2"
    using sentinel_and_flush_paths [OF m2, of ?one "''A2''"] f by simp
  moreover have "r2 = Raised DisconnectFailed \<and> queue w2 = [None]
      \<and> files s2 = [[[Str ''timestamp'', Str ''timestamp_local'', Str ''ax'', Str ''ay'',
                       Str ''az'', Str ''fall_state'']]]"
    using m2 by (auto simp: run_simps)
  ultimately have two: "(case main SENSOR_ID ?e2 [] initial_world of
        (r, w, s) \<Rightarrow> r = Raised DisconnectFailed \<and> queue w = [None] \<and> returned s
          \<and> files s = [[[Str ''timestamp'', Str ''timestamp_local'', Str ''ax'', Str ''ay'',
                          Str ''az'', Str ''fall_state'']]])"
    by (simp add: m2)
  obtain r3 w3 s3 where m3: "main SENSOR_ID ?e3 [] initial_world = (r3, w3, s3)"
    using prod_cases3 by blast
  have "r3 = Returned"
    using sentinel_and_flush_paths [OF m3, of ?one "''A2''"] f by simp
  then have three: "fst (main SENSOR_ID ?e3 [] initial_world) = Returned"
    by (simp add: m3)
  show ?thesis using one two three by blast
qed

text \<open>
  Claim C1 as stated fails: SENSOR_ID's device is discovered and the connection fails.
  The session raises with an empty queue, and the sink has neither written a file nor
  returned.
\<close>

theorem connect_failure_counterexample:
  "main SENSOR_ID
     \<lparr>discovered = Inr [\<lparr>name = Some ''Movesense 223430000278'', address = ''A2''\<rparr>],
      connect_ok = False, main_thread = True, start_notify_ok = True, subscribe_ok = True,
      events = [], disconnect_set = True, is_connected = True, unsubscribe_ok = True,
      stop_notify_ok = True, disconnect_ok = True\<rparr> [] initial_world =
   (Raised ConnectFailed,
    \<lparr>queue = [], trace = [Connect ''A2''], emitted = [], annotation_fall_state = ''default'',
     handler_errors = []\<rparr>,
    \<lparr>data_points = [], files = [], returned = False, unconsumed = []\<rparr>)"
  by (simp add: run_simps)

text \<open>
  Claim C2. A notification whose payload is too short to decode (fewer than 18 bytes)
  raises in its handler: nothing is emitted or put, the exception is kept with the
  handler's task, and nothing else of the state changes. The events before and after it
  are processed as if it had not arrived, and the session ends with the same outcome,
  queue and trace as the run without it.
\<close>

theorem malformed_notification_dropped:
  "length data < 18 \<longrightarrow>
     notification_handler data now w = Inl OutOfBounds
     \<and> deliver (Notification data now) w =
         w\<lparr>handler_errors := handler_errors w @ [OutOfBounds]\<rparr>
     \<and> (\<exists>h. deliver_all (pre @ Notification data now # post) w =
              (deliver_all (pre @ post) w)\<lparr>handler_errors := h\<rparr>)
     \<and> (\<exists>h. run_ble_client suf (env\<lparr>events := pre @ Notification data now # post\<rparr>) w =
              (case run_ble_client suf (env\<lparr>events := pre @ post\<rparr>) w of
                 (r, w') \<Rightarrow> (r, w'\<lparr>handler_errors := h\<rparr>)))"
proof
  assume s: "length data < 18"
  have a: "notification_handler data now w = Inl OutOfBounds"
    using s dig_fails_iff [of data] by (simp add: notification_handler_def)
  have b: "deliver (Notification data now) w =
         w\<lparr>handler_errors := handler_errors w @ [OutOfBounds]\<rparr>"
    using s by (rule deliver_malformed)
  have c: "\<exists>h. deliver_all (pre @ Notification data now # post) w =
              (deliver_all (pre @ post) w)\<lparr>handler_errors := h\<rparr>" for w
    using s by (rule deliver_all_malformed)
  have d: "\<exists>h. run_ble_client suf (env\<lparr>events := pre @ Notification data now # post\<rparr>) w =
              (case run_ble_client suf (env\<lparr>events := pre @ post\<rparr>) w of
                 (r, w') \<Rightarrow> (r, w'\<lparr>handler_errors := h\<rparr>))"
    using c by (rule run_ble_client_handler_errors)
  show "notification_handler data now w = Inl OutOfBounds
     \<and> deliver (Notification data now) w =
         w\<lparr>handler_errors := handler_errors w @ [OutOfBounds]\<rparr>
     \<and> (\<exists>h. deliver_all (pre @ Notification data now # post) w =
              (deliver_all (pre @ post) w)\<lparr>handler_errors := h\<rparr>)
     \<and> (\<exists>h. run_ble_client suf (env\<lparr>events := pre @ Notification data now # post\<rparr>) w =
              (case run_ble_client suf (env\<lparr>events := pre @ post\<rparr>) w of
                 (r, w') \<Rightarrow> (r, w'\<lparr>handler_errors := h\<rparr>)))"
    using a b c [of w] d by blast
qed

text \<open>
  Claim C2 at a run of three notifications, the second of 5 bytes: the first and the
  third reading are queued before the sentinel, and the session returns.
\<close>

theorem malformed_notification_dropped_witness:
  "run_ble_client SENSOR_ID
     \<lparr>discovered = Inr [\<lparr>name = Some ''Movesense 223430000278'', address = ''A2''\<rparr>],
      connect_ok = True, main_thread = True, start_notify_ok = True, subscribe_ok = True,
      events =
        [Notification [0, 0, 10, 0, 0, 0, 0, 0, 128, 63, 0, 0, 0, 64, 0, 0, 64, 64] ''t1'',
         Notification [0, 0, 11, 0, 0] ''t2'',
         Notification [0, 0, 12, 0, 0, 0, 0, 0, 128, 63, 0, 0, 0, 64, 0, 0, 64, 64] ''t3''],
      disconnect_set = True, is_connected = True, unsubscribe_ok = True,
      stop_notify_ok = True,
      disconnect_ok = True\<rparr> initial_world =
   (Returned,
    \<lparr>queue =
       [Some \<lparr>timestamp = 10, timestamp_local = ''t1'', ax = Finite 1, ay = Finite 2,
              az = Finite 3, fall_state = ''default''\<rparr>,
        Some \<lparr>timestamp = 12, timestamp_local = ''t3'', ax = Finite 1, ay = Finite 2,
              az = Finite 3, fall_state = ''default''\<rparr>,
        None],
     trace =
       [Connect ''A2'', StartNotify NOTIFY_CHARACTERISTIC_UUID,
        WriteGattChar WRITE_CHARACTERISTIC_UUID ([1, 99] @ ascii ''/Meas/Acc/13'') True,
        WriteGattChar WRITE_CHARACTERISTIC_UUID [2, 99] True,
        StopNotify NOTIFY_CHARACTERISTIC_UUID, Disconnect],
     emitted =
       [\<lparr>timestamp = 10, timestamp_local = ''t1'', ax = Finite 1, ay = Finite 2,
         az = Finite 3, fall_state = ''default''\<rparr>,
        \<lparr>timestamp = 12, timestamp_local = ''t3'', ax = Finite 1, ay = Finite 2,
         az = Finite 3, fall_state = ''default''\<rparr>],
     annotation_fall_state = ''default'',
     handler_errors = [OutOfBounds]\<rparr>)"
  using malformed_notification_dropped
    [of "[0, 0, 11, 0, 0]" "''t2''" initial_world
      "[Notification [0, 0, 10, 0, 0, 0, 0, 0, 128, 63, 0, 0, 0, 64, 0, 0, 64, 64] ''t1'']"
      "[Notification [0, 0, 12, 0, 0, 0, 0, 0, 128, 63, 0, 0, 0, 64, 0, 0, 64, 64] ''t3'']"
      SENSOR_ID
      "\<lparr>discovered = Inr [\<lparr>name = Some ''Movesense 223430000278'', address = ''A2''\<rparr>],
      connect_ok = True, main_thread = True, start_notify_ok = True, subscribe_ok = True,
      events = [],
      disconnect_set = True, is_connected = True, unsubscribe_ok = True,
      stop_notify_ok = True,
      disconnect_ok = True\<rparr>"]
  by (simp add: run_simps)

text \<open>
  Claim C3, as amended. On a session that is subscribed when the disconnect event is set:
  if the connection is still live, the session writes the unsubscribe command
  \<^verbatim>\<open>[2, 99]\<close> with response, then stops notifications, and when both succeed it
  puts the sentinel; if the connection is already down, it skips both calls and puts the
  sentinel. When the write raises, notifications are not stopped and no sentinel is put;
  when stopping notifications raises, no sentinel is put. In every case leaving the client
  block disconnects, and the session ends with the exception of the failed step, or with
  that of the disconnection when it raises.
\<close>

theorem teardown_unsubscribe_steps:
  assumes "discovered env = Inr ds" and "find_device ds suf = Some a" and "connect_ok env"
    and "main_thread env" and "start_notify_ok env" and "subscribe_ok env"
    and "disconnect_set env"
    and "run_ble_client suf env w = (r, w')"
  shows
    "(is_connected env \<and> unsubscribe_ok env \<and> stop_notify_ok env \<longrightarrow>
        r = (if disconnect_ok env then Returned else Raised DisconnectFailed)
        \<and> trace w' = trace w @
            [Connect a, StartNotify NOTIFY_CHARACTERISTIC_UUID,
             WriteGattChar WRITE_CHARACTERISTIC_UUID ([1, 99] @ ascii ''/Meas/Acc/13'') True,
             WriteGattChar WRITE_CHARACTERISTIC_UUID [2, 99] True,
             StopNotify NOTIFY_CHARACTERISTIC_UUID, Disconnect]
        \<and> (\<exists>rs. queue w' = queue w @ map Some rs @ [None]))
     \<and> (\<not> is_connected env \<longrightarrow>
        r = (if disconnect_ok env then Returned else Raised DisconnectFailed)
        \<and> trace w' = trace w @
            [Connect a, StartNotify NOTIFY_CHARACTERISTIC_UUID,
             WriteGattChar WRITE_CHARACTERISTIC_UUID ([1, 99] @ ascii ''/Meas/Acc/13'') True,
             Disconnect]
        \<and> (\<exists>rs. queue w' = queue w @ map Some rs @ [None]))
     \<and> (is_connected env \<and> \<not> unsubscribe_ok env \<longrightarrow>
        r = (if disconnect_ok env then Raised WriteFailed else Raised DisconnectFailed)
        \<and> trace w' = trace w @
            [Connect a, StartNotify NOTIFY_CHARACTERISTIC_UUID,
             WriteGattChar WRITE_CHARACTERISTIC_UUID ([1, 99] @ ascii ''/Meas/Acc/13'') True,
             WriteGattChar WRITE_CHARACTERISTIC_UUID [2, 99] True, Disconnect]
        \<and> (\<exists>rs. queue w' = queue w @ map Some rs))
     \<and> (is_connected env \<and> unsubscribe_ok env \<and> \<not> stop_notify_ok env \<longrightarrow>
        r = (if disconnect_ok env then Raised StopNotifyFailed else Raised DisconnectFailed)
        \<and> trace w' = trace w @
            [Connect a, StartNotify NOTIFY_CHARACTERISTIC_UUID,
             WriteGattChar WRITE_CHARACTERISTIC_UUID ([1, 99] @ ascii ''/Meas/Acc/13'') True,
             WriteGattChar WRITE_CHARACTERISTIC_UUID [2, 99] True,
             StopNotify NOTIFY_CHARACTERISTIC_UUID, Disconnect]
        \<and> (\<exists>rs. queue w' = queue w @ map Some rs))"
proof -
  define w3 where "w3 = deliver_all (events env)
          (call (WriteGattChar WRITE_CHARACTERISTIC_UUID ([1, 99] @ ascii ''/Meas/Acc/13'') True)
            (call (StartNotify NOTIFY_CHARACTERISTIC_UUID) (call (Connect a) w)))"
  obtain rt wt where t: "teardown env w3 = (rt, wt)"
    by (cases "teardown env w3") blast
  have "run_ble_client suf env w =
      (if disconnect_ok env then rt else Raised DisconnectFailed, call Disconnect wt)"
    using run_ble_client_subscribed [OF assms(1-7), of w] t by (simp add: w3_def)
  then have r: "r = (if disconnect_ok env then rt else Raised DisconnectFailed)"
    and w': "w' = call Disconnect wt"
    using assms(8) by auto
  have tr: "trace w3 = trace w @
            [Connect a, StartNotify NOTIFY_CHARACTERISTIC_UUID,
             WriteGattChar WRITE_CHARACTERISTIC_UUID ([1, 99] @ ascii ''/Meas/Acc/13'') True]"
    by (simp add: w3_def deliver_all_trace call_trace)
  obtain rs where q3: "queue w3 = queue w @ map Some rs"
    using deliver_all_queue
      [of "events env"
        "call (WriteGattChar WRITE_CHARACTERISTIC_UUID ([1, 99] @ ascii ''/Meas/Acc/13'') True)
            (call (StartNotify NOTIFY_CHARACTERISTIC_UUID) (call (Connect a) w))"]
    by (auto simp: w3_def call_queue)
  have q: "queue w' = queue w @ map Some rs @ (if rt = Returned then [None] else [])"
    using teardown_queue [OF t] q3 by (simp add: w' call_queue)
  have a: "is_connected env \<and> unsubscribe_ok env \<and> stop_notify_ok env \<longrightarrow>
        rt = Returned
        \<and> trace w' = trace w3 @
            [WriteGattChar WRITE_CHARACTERISTIC_UUID [2, 99] True,
             StopNotify NOTIFY_CHARACTERISTIC_UUID, Disconnect]"
    using t by (auto simp: w' teardown_def Let_def call_trace put_trace)
  have b: "\<not> is_connected env \<longrightarrow> rt = Returned \<and> trace w' = trace w3 @ [Disconnect]"
    using t by (auto simp: w' teardown_def Let_def call_trace put_trace)
  have c: "is_connected env \<and> \<not> unsubscribe_ok env \<longrightarrow>
        rt = Raised WriteFailed
        \<and> trace w' = trace w3 @
            [WriteGattChar WRITE_CHARACTERISTIC_UUID [2, 99] True, Disconnect]"
    using t by (auto simp: w' teardown_def Let_def call_trace put_trace)
  have d: "is_connected env \<and> unsubscribe_ok env \<and> \<not> stop_notify_ok env \<longrightarrow>
        rt = Raised StopNotifyFailed
        \<and> trace w' = trace w3 @
            [WriteGattChar WRITE_CHARACTERISTIC_UUID [2, 99] True,
             StopNotify NOTIFY_CHARACTERISTIC_UUID, Disconnect]"
    using t by (auto simp: w' teardown_def Let_def call_trace put_trace)
  have q1: "rt = Returned \<Longrightarrow> \<exists>rs. queue w' = queue w @ map Some rs @ [None]"
    using q by auto
  have q2: "rt \<noteq> Returned \<Longrightarrow> \<exists>rs. queue w' = queue w @ map Some rs"
    using q by auto
  have A: "is_connected env \<and> unsubscribe_ok env \<and> stop_notify_ok env \<longrightarrow>
        r = (if disconnect_ok env then Returned else Raised DisconnectFailed)
        \<and> trace w' = trace w @
            [Connect a, StartNotify NOTIFY_CHARACTERISTIC_UUID,
             WriteGattChar WRITE_CHARACTERISTIC_UUID ([1, 99] @ ascii ''/Meas/Acc/13'') True,
             WriteGattChar WRITE_CHARACTERISTIC_UUID [2, 99] True,
             StopNotify NOTIFY_CHARACTERISTIC_UUID, Disconnect]
        \<and> (\<exists>rs. queue w' = queue w @ map Some rs @ [None])"
    using a q1 r by (simp add: tr del: append.simps)
  have B: "\<not> is_connected env \<longrightarrow>
        r = (if disconnect_ok env then Returned else Raised DisconnectFailed)
        \<and> trace w' = trace w @
            [Connect a, StartNotify NOTIFY_CHARACTERISTIC_UUID,
             WriteGattChar WRITE_CHARACTERISTIC_UUID ([1, 99] @ ascii ''/Meas/Acc/13'') True,
             Disconnect]
        \<and> (\<exists>rs. queue w' = queue w @ map Some rs @ [None])"
    using b q1 r by (simp add: tr del: append.simps)
  have C: "is_connected env \<and> \<not> unsubscribe_ok env \<longrightarrow>
        r = (if disconnect_ok env then Raised WriteFailed else Raised DisconnectFailed)
        \<and> trace w' = trace w @
            [Connect a, StartNotify NOTIFY_CHARACTERISTIC_UUID,
             WriteGattChar WRITE_CHARACTERISTIC_UUID ([1, 99] @ ascii ''/Meas/Acc/13'') True,
             WriteGattChar WRITE_CHARACTERISTIC_UUID [2, 99] True, Disconnect]
        \<and> (\<exists>rs. queue w' = queue w @ map Some rs)"
    using c q2 r by (simp add: tr del: append.simps)
  have D: "is_connected env \<and> unsubscribe_ok env \<and> \<not> stop_notify_ok env \<longrightarrow>
        r = (if disconnect_ok env then Raised StopNotifyFailed else Raised DisconnectFailed)
        \<and> trace w' = trace w @
            [Connect a, StartNotify NOTIFY_CHARACTERISTIC_UUID,
             WriteGattChar WRITE_CHARACTERISTIC_UUID ([1, 99] @ ascii ''/Meas/Acc/13'') True,
             WriteGattChar WRITE_CHARACTERISTIC_UUID [2, 99] True,
             StopNotify NOTIFY_CHARACTERISTIC_UUID, Disconnect]
        \<and> (\<exists>rs. queue w' = queue w @ map Some rs)"
    using d q2 r by (simp add: tr del: append.simps)
  show ?thesis using A B C D by blast
qed

text \<open>
  Claim C3 at two runs: a live connection, and a connection that is already down.
\<close>

theorem teardown_unsubscribe_steps_witness:
  "run_ble_client SENSOR_ID
     \<lparr>discovered = Inr [\<lparr>name = Some ''Movesense 223430000278'', address = ''A2''\<rparr>],
      connect_ok = True, main_thread = True, start_notify_ok = True, subscribe_ok = True, events = [],
      disconnect_set = True, is_connected = True, unsubscribe_ok = True,
      stop_notify_ok = True,
      disconnect_ok = True\<rparr> initial_world =
     (Returned,
      \<lparr>queue = [None],
       trace =
         [Connect ''A2'', StartNotify NOTIFY_CHARACTERISTIC_UUID,
          WriteGattChar WRITE_CHARACTERISTIC_UUID ([1, 99] @ ascii ''/Meas/Acc/13'') True,
          WriteGattChar WRITE_CHARACTERISTIC_UUID [2, 99] True,
          StopNotify NOTIFY_CHARACTERISTIC_UUID, Disconnect],
       emitted = [], annotation_fall_state = ''default'', handler_errors = []\<rparr>)
   \<and> run_ble_client SENSOR_ID
     \<lparr>discovered = Inr [\<lparr>name = Some ''Movesense 223430000278'', address = ''A2''\<rparr>],
      connect_ok = True, main_thread = True, start_notify_ok = True, subscribe_ok = True, events = [],
      disconnect_set = True, is_connected = False, unsubscribe_ok = False,
      stop_notify_ok = False,
      disconnect_ok = True\<rparr> initial_world =
     (Returned,
      \<lparr>queue = [None],
       trace =
         [Connect ''A2'', StartNotify NOTIFY_CHARACTERISTIC_UUID,
          WriteGattChar WRITE_CHARACTERISTIC_UUID ([1, 99] @ ascii ''/Meas/Acc/13'') True,
          Disconnect],
       emitted = [], annotation_fall_state = ''default'', handler_errors = []\<rparr>)"
proof -
  let ?ds = "[\<lparr>name = Some ''Movesense 223430000278'', address = ''A2''\<rparr>]"
  let ?live = "\<lparr>discovered = Inr ?ds,
      connect_ok = True, main_thread = True, start_notify_ok = True, subscribe_ok = True, events = [],
      disconnect_set = True, is_connected = True, unsubscribe_ok = True,
      stop_notify_ok = True,
      disconnect_ok = True\<rparr>"
  let ?down = "\<lparr>discovered = Inr ?ds,
      connect_ok = True, main_thread = True, start_notify_ok = True, subscribe_ok = True, events = [],
      disconnect_set = True, is_connected = False, unsubscribe_ok = False,
      stop_notify_ok = False,
      disconnect_ok = True\<rparr>"
  have f: "find_device ?ds SENSOR_ID = Some ''A2''"
    by (simp add: SENSOR_ID_def endswith_def)
  obtain r1 w1 where l: "run_ble_client SENSOR_ID ?live initial_world = (r1, w1)"
    by (cases "run_ble_client SENSOR_ID ?live initial_world") blast
  obtain r2 w2 where d: "run_ble_client SENSOR_ID ?down initial_world = (r2, w2)"
    by (cases "run_ble_client SENSOR_ID ?down initial_world") blast
  have "r1 = Returned \<and> trace w1 =
         [Connect ''A2'', StartNotify NOTIFY_CHARACTERISTIC_UUID,
          WriteGattChar WRITE_CHARACTERISTIC_UUID ([1, 99] @ ascii ''/Meas/Acc/13'') True,
          WriteGattChar WRITE_CHARACTERISTIC_UUID [2, 99] True,
          StopNotify NOTIFY_CHARACTERISTIC_UUID, Disconnect]"
    using teardown_unsubscribe_steps [OF _ f _ _ _ _ _ l] by (simp add: initial_world_def)
  moreover have "r2 = Returned \<and> trace w2 =
         [Connect ''A2'', StartNotify NOTIFY_CHARACTERISTIC_UUID,
          WriteGattChar WRITE_CHARACTERISTIC_UUID ([1, 99] @ ascii ''/Meas/Acc/13'') True,
          Disconnect]"
    using teardown_unsubscribe_steps [OF _ f _ _ _ _ _ d] by (simp add: initial_world_def)
  moreover have "queue w1 = [None] \<and> emitted w1 = [] \<and> annotation_fall_state w1 = ''default''
      \<and> handler_errors w1 = []"
    using l by (auto simp: run_simps)
  moreover have "queue w2 = [None] \<and> emitted w2 = [] \<and> annotation_fall_state w2 = ''default''
      \<and> handler_errors w2 = []"
    using d by (auto simp: run_simps)
  ultimately show ?thesis
    by (simp add: l d world.equality)
qed

text \<open>
  Claim C3 as stated fails: with a live connection and an unsubscribe write that raises,
  the session raises, the reading already queued is not followed by a sentinel, and the
  sink writes no file.
\<close>

theorem unsubscribe_failure_counterexample:
  "main SENSOR_ID
     \<lparr>discovered = Inr [\<lparr>name = Some ''Movesense 223430000278'', address = ''A2''\<rparr>],
      connect_ok = True, main_thread = True, start_notify_ok = True, subscribe_ok = True,
      events =
        [Notification [0, 0, 10, 0, 0, 0, 0, 0, 128, 63, 0, 0, 0, 64, 0, 0, 64, 64] ''t1''],
      disconnect_set = True, is_connected = True, unsubscribe_ok = False,
      stop_notify_ok = True,
      disconnect_ok = True\<rparr> [] initial_world =
   (Raised WriteFailed,
    \<lparr>queue =
       [Some \<lparr>timestamp = 10, timestamp_local = ''t1'', ax = Finite 1, ay = Finite 2,
              az = Finite 3, fall_state = ''default''\<rparr>],
     trace =
       [Connect ''A2'', StartNotify NOTIFY_CHARACTERISTIC_UUID,
        WriteGattChar WRITE_CHARACTERISTIC_UUID ([1, 99] @ ascii ''/Meas/Acc/13'') True,
        WriteGattChar WRITE_CHARACTERISTIC_UUID [2, 99] True, Disconnect],
     emitted =
       [\<lparr>timestamp = 10, timestamp_local = ''t1'', ax = Finite 1, ay = Finite 2,
         az = Finite 3, fall_state = ''default''\<rparr>],
     annotation_fall_state = ''default'', handler_errors = []\<rparr>,
    \<lparr>data_points =
       [\<lparr>timestamp = 10, timestamp_local = ''t1'', ax = Finite 1, ay = Finite 2,
         az = Finite 3, fall_state = ''default''\<rparr>],
     files = [], returned = False, unconsumed = []\<rparr>)"
  by (simp add: run_simps)

text \<open>
  Claim C4. Readings put on the queue before the sentinel are accumulated by the sink in
  the order of the puts (a put appends at the end of the queue, and handling events only
  appends to it). On the sentinel the sink writes one file and returns: the header row
  \<^verbatim>\<open>timestamp, timestamp_local, ax, ay, az, fall_state\<close> first, then one row of
  the six fields per reading, the i-th reading of the queue in the row after those of
  the readings DATA_POINTS held before (row i+1 from the empty DATA_POINTS of a fresh
  module).
\<close>

theorem sink_fifo_single_flush:
  "run_queue_consumer dp (map Some rs @ [None]) =
     \<lparr>data_points = dp @ rs,
      files =
        [[Str ''timestamp'', Str ''timestamp_local'', Str ''ax'', Str ''ay'', Str ''az'',
          Str ''fall_state''] #
         map (\<lambda>a. [Num (timestamp a), Str (timestamp_local a), Flt (ax a), Flt (ay a),
                    Flt (az a), Str (fall_state a)]) (dp @ rs)],
      returned = True, unconsumed = []\<rparr>
   \<and> length (files (run_queue_consumer dp (map Some rs @ [None]))) = 1
   \<and> hd (files (run_queue_consumer dp (map Some rs @ [None]))) ! 0 =
       [Str ''timestamp'', Str ''timestamp_local'', Str ''ax'', Str ''ay'', Str ''az'',
        Str ''fall_state'']
   \<and> length (hd (files (run_queue_consumer dp (map Some rs @ [None])))) =
       Suc (length dp + length rs)
   \<and> (\<forall>i < length rs.
        hd (files (run_queue_consumer dp (map Some rs @ [None]))) ! Suc (length dp + i) =
          [Num (timestamp (rs ! i)), Str (timestamp_local (rs ! i)), Flt (ax (rs ! i)),
           Flt (ay (rs ! i)), Flt (az (rs ! i)), Str (fall_state (rs ! i))])
   \<and> queue (put item w) = queue w @ [item]
   \<and> (\<exists>later. queue (deliver_all evs w) = queue w @ later)"
proof -
  have a: "run_queue_consumer dp (map Some rs @ [None]) =
     \<lparr>data_points = dp @ rs,
      files =
        [[Str ''timestamp'', Str ''timestamp_local'', Str ''ax'', Str ''ay'', Str ''az'',
          Str ''fall_state''] #
         map (\<lambda>a. [Num (timestamp a), Str (timestamp_local a), Flt (ax a), Flt (ay a),
                    Flt (az a), Str (fall_state a)]) (dp @ rs)],
      returned = True, unconsumed = []\<rparr>"
    by (simp add: run_queue_consumer_sentinel save_as_csv_def head_def as_csv_field_def)
  have b: "\<forall>i < length rs.
        hd (files (run_queue_consumer dp (map Some rs @ [None]))) ! Suc (length dp + i) =
          [Num (timestamp (rs ! i)), Str (timestamp_local (rs ! i)), Flt (ax (rs ! i)),
           Flt (ay (rs ! i)), Flt (az (rs ! i)), Str (fall_state (rs ! i))]"
    by (simp add: a nth_append)
  have c: "queue (put item w) = queue w @ [item]"
    by (simp add: put_def)
  have d: "\<exists>later. queue (deliver_all evs w) = queue w @ later"
    by (rule deliver_all_queue_grows)
  show ?thesis
    using b c d by (simp add: a)
qed

text \<open>
  Claim C4 at two readings followed by the sentinel.
\<close>

theorem sink_fifo_single_flush_witness:
  "files (run_queue_consumer []
      [Some \<lparr>timestamp = 10, timestamp_local = ''t1'', ax = Finite 1, ay = Finite 2,
             az = Finite 3, fall_state = ''default''\<rparr>,
       Some \<lparr>timestamp = 11, timestamp_local = ''t2'', ax = Finite 0, ay = NegZero,
             az = NaN, fall_state = ''Start''\<rparr>,
       None]) =
     [[[Str ''timestamp'', Str ''timestamp_local'', Str ''ax'', Str ''ay'', Str ''az'',
        Str ''fall_state''],
       [Num 10, Str ''t1'', Flt (Finite 1), Flt (Finite 2), Flt (Finite 3), Str ''default''],
       [Num 11, Str ''t2'', Flt (Finite 0), Flt NegZero, Flt NaN, Str ''Start'']]]"
  using sink_fifo_single_flush
    [of "[]" "[\<lparr>timestamp = 10, timestamp_local = ''t1'', ax = Finite 1, ay = Finite 2,
             az = Finite 3, fall_state = ''default''\<rparr>,
          \<lparr>timestamp = 11, timestamp_local = ''t2'', ax = Finite 0, ay = NegZero,
             az = NaN, fall_state = ''Start''\<rparr>]"]
  by simp

text \<open>
  Claim C5. The accessors \<^verbatim>\<open>get_uint_32\<close> and \<^verbatim>\<open>get_float_32\<close> fail with
  OutOfBounds exactly when the offset plus the field width 4 exceeds the length of the
  buffer. Otherwise they return the little-endian value of the four bytes at the offset
  (an integer below 2^32, or its binary32 reading), and the result depends on no byte
  at or beyond offset + 4: two buffers that agree on their first offset + 4 bytes give
  the same result.
\<close>

theorem accessors_bounds_checked:
  "(get_uint_32 buf off = Inl OutOfBounds) = (length buf < off + 4)
   \<and> (get_float_32 buf off = Inl OutOfBounds) = (length buf < off + 4)
   \<and> (off + 4 \<le> length buf \<longrightarrow>
        (\<exists>v. get_uint_32 buf off = Inr v \<and> v < 2 ^ 32
             \<and> v = le_nat [buf ! off, buf ! (off + 1), buf ! (off + 2), buf ! (off + 3)])
        \<and> get_float_32 buf off =
            Inr (binary32 (le_nat [buf ! off, buf ! (off + 1), buf ! (off + 2), buf ! (off + 3)])))
   \<and> (take (off + 4) buf = take (off + 4) buf' \<longrightarrow>
        get_uint_32 buf off = get_uint_32 buf' off
        \<and> get_float_32 buf off = get_float_32 buf' off)"
proof -
  have a: "(get_uint_32 buf off = Inl OutOfBounds) = (length buf < off + 4)"
    by (simp add: get_uint_32_def)
  have b: "(get_float_32 buf off = Inl OutOfBounds) = (length buf < off + 4)"
    by (simp add: get_float_32_def)
  have c: "off + 4 \<le> length buf \<longrightarrow>
        (\<exists>v. get_uint_32 buf off = Inr v \<and> v < 2 ^ 32
             \<and> v = le_nat [buf ! off, buf ! (off + 1), buf ! (off + 2), buf ! (off + 3)])
        \<and> get_float_32 buf off =
            Inr (binary32 (le_nat [buf ! off, buf ! (off + 1), buf ! (off + 2), buf ! (off + 3)]))"
  proof
    assume h: "off + 4 \<le> length buf"
    have "le_nat [buf ! off, buf ! (off + 1), buf ! (off + 2), buf ! (off + 3)] < 2 ^ 32"
      using le_nat_bound [of "[buf ! off, buf ! (off + 1), buf ! (off + 2), buf ! (off + 3)]"]
      by simp
    then show "(\<exists>v. get_uint_32 buf off = Inr v \<and> v < 2 ^ 32
             \<and> v = le_nat [buf ! off, buf ! (off + 1), buf ! (off + 2), buf ! (off + 3)])
        \<and> get_float_32 buf off =
            Inr (binary32 (le_nat [buf ! off, buf ! (off + 1), buf ! (off + 2), buf ! (off + 3)]))"
      using h by (simp add: get_uint_32_def get_float_32_def take4_drop del: le_nat.simps)
  qed
  have d: "take (off + 4) buf = take (off + 4) buf' \<longrightarrow>
        get_uint_32 buf off = get_uint_32 buf' off
        \<and> get_float_32 buf off = get_float_32 buf' off"
  proof
    assume h: "take (off + 4) buf = take (off + 4) buf'"
    then have "length (take (off + 4) buf) = length (take (off + 4) buf')" by simp
    then have l: "(off + 4 \<le> length buf) = (off + 4 \<le> length buf')"
      by (simp add: min_def split: if_splits)
    have "take 4 (drop off buf) = take 4 (drop off buf')"
      using h by (rule take_drop_cong)
    then show "get_uint_32 buf off = get_uint_32 buf' off
        \<and> get_float_32 buf off = get_float_32 buf' off"
      using l by (simp add: get_uint_32_def get_float_32_def)
  qed
  show ?thesis using a b c d by blast
qed

text \<open>
  Claim C5 at a 5-byte buffer: offset 2 is out of bounds, offset 1 is not, and bytes
  appended to the buffer do not change what is read.
\<close>

theorem accessors_bounds_checked_witness:
  "get_uint_32 [0, 0, 10, 0, 0] 2 = Inl OutOfBounds
   \<and> get_float_32 [0, 0, 10, 0, 0] 2 = Inl OutOfBounds
   \<and> get_uint_32 [0, 0, 10, 0, 0] 1 = Inr 2560
   \<and> get_uint_32 [0, 0, 10, 0, 0, 7, 7] 1 = Inr 2560
   \<and> get_float_32 [0, 0, 128, 63] 0 = Inr (Finite 1)"
  using accessors_bounds_checked [of "[0, 0, 10, 0, 0]" 2 "[0, 0, 10, 0, 0]"]
    accessors_bounds_checked [of "[0, 0, 10, 0, 0]" 1 "[0, 0, 10, 0, 0, 7, 7]"]
    accessors_bounds_checked [of "[0, 0, 128, 63]" 0 "[0, 0, 128, 63]"]
  by (simp add: binary32_def get_uint_32_def)

text \<open>
  Claim C6. For a payload of at least 18 bytes the handler queues a reading whose
  timestamp is the little-endian unsigned integer of bytes 2 to 5 and whose ax, ay, az are
  the binary32 values of the little-endian bytes 6 to 9, 10 to 13 and 14 to 17. The
  18 bytes \<^verbatim>\<open>[0,0, 10,0,0,0, 0,0,128,63, 0,0,0,64, 0,0,64,64]\<close> decode to timestamp
  10, ax 1.0, ay 2.0, az 3.0.
\<close>

theorem handler_decodes_fields:
  "(18 \<le> length data \<longrightarrow>
      (\<exists>w'. notification_handler data now w = Inr w'
         \<and> queue w' = queue w @
             [Some \<lparr>timestamp = le_nat [data ! 2, data ! 3, data ! 4, data ! 5],
                    timestamp_local = now,
                    ax = binary32 (le_nat [data ! 6, data ! 7, data ! 8, data ! 9]),
                    ay = binary32 (le_nat [data ! 10, data ! 11, data ! 12, data ! 13]),
                    az = binary32 (le_nat [data ! 14, data ! 15, data ! 16, data ! 17]),
                    fall_state = annotation_fall_state w\<rparr>]))
   \<and> le_nat [b0, b1, b2, b3] = unat b0 + 256 * unat b1 + 65536 * unat b2 + 16777216 * unat b3
   \<and> dig [0, 0, 10, 0, 0, 0, 0, 0, 128, 63, 0, 0, 0, 64, 0, 0, 64, 64] =
       Inr (10, Finite 1, Finite 2, Finite 3)"
proof -
  have a: "18 \<le> length data \<longrightarrow>
      (\<exists>w'. notification_handler data now w = Inr w'
         \<and> queue w' = queue w @
             [Some \<lparr>timestamp = le_nat [data ! 2, data ! 3, data ! 4, data ! 5],
                    timestamp_local = now,
                    ax = binary32 (le_nat [data ! 6, data ! 7, data ! 8, data ! 9]),
                    ay = binary32 (le_nat [data ! 10, data ! 11, data ! 12, data ! 13]),
                    az = binary32 (le_nat [data ! 14, data ! 15, data ! 16, data ! 17]),
                    fall_state = annotation_fall_state w\<rparr>])"
    by (simp add: notification_handler_def dig_fields put_def Let_def del: le_nat.simps)
  have b: "le_nat [b0, b1, b2, b3] =
      unat b0 + 256 * unat b1 + 65536 * unat b2 + 16777216 * unat b3"
    by simp
  have c: "dig [0, 0, 10, 0, 0, 0, 0, 0, 128, 63, 0, 0, 0, 64, 0, 0, 64, 64] =
       Inr (10, Finite 1, Finite 2, Finite 3)"
    by (simp add: dig_def get_uint_32_def get_float_32_def binary32_def)
  show ?thesis using a b c by blast
qed

text \<open>
  Claim C6 at the example payload, delivered to the initial state.
\<close>

theorem handler_decodes_fields_witness:
  "queue (deliver
      (Notification [0, 0, 10, 0, 0, 0, 0, 0, 128, 63, 0, 0, 0, 64, 0, 0, 64, 64] ''t1'')
      initial_world) =
     [Some \<lparr>timestamp = 10, timestamp_local = ''t1'', ax = Finite 1, ay = Finite 2,
            az = Finite 3, fall_state = ''default''\<rparr>]"
proof -
  obtain w' where h:
    "notification_handler [0, 0, 10, 0, 0, 0, 0, 0, 128, 63, 0, 0, 0, 64, 0, 0, 64, 64] ''t1''
       initial_world = Inr w'"
    "queue w' =
       [Some \<lparr>timestamp = 10, timestamp_local = ''t1'', ax = Finite 1, ay = Finite 2,
              az = Finite 3, fall_state = ''default''\<rparr>]"
    using handler_decodes_fields
      [of "[0, 0, 10, 0, 0, 0, 0, 0, 128, 63, 0, 0, 0, 64, 0, 0, 64, 64]" "''t1''"
          initial_world 0 0 0 0]
    by (auto simp: initial_world_def binary32_def)
  show ?thesis by (simp add: deliver_def h)
qed

text \<open>
  Claim C7. Discovery selects the first device of the discovered list that has a name
  ending with the configured suffix, whatever follows it in the list; for a non-empty
  suffix such as SENSOR_ID the test is the suffix test alone. The session connects to the
  address of that device, first of all its transport calls, and to no other address; a
  failing connection ends it with that exception. When no device of the single discovery
  pass matches, the session takes the not-found path: it puts the sentinel, calls nothing
  of the transport and returns.
\<close>

theorem discovery_first_match:
  "find_device ds suf =
     map_option address
       (List.find (\<lambda>d. \<exists>n. name d = Some n \<and> n \<noteq> [] \<and> suffix suf n) ds)
   \<and> (suf \<noteq> [] \<longrightarrow>
        find_device ds suf =
          map_option address (List.find (\<lambda>d. \<exists>n. name d = Some n \<and> suffix suf n) ds))
   \<and> (find_device pre suf = None \<and> (\<exists>n. name d = Some n \<and> n \<noteq> [] \<and> suffix suf n) \<longrightarrow>
        find_device (pre @ d # post) suf = Some (address d))
   \<and> (discovered env = Inr ds \<and> find_device ds suf = None \<longrightarrow>
        run_ble_client suf env w = (Returned, put None w))
   \<and> (discovered env = Inr ds \<and> find_device ds suf = Some a \<longrightarrow>
        (\<exists>t. trace (snd (run_ble_client suf env w)) = trace w @ Connect a # t
              \<and> (\<forall>b. Connect b \<notin> set t))
        \<and> (\<not> connect_ok env \<longrightarrow> fst (run_ble_client suf env w) = Raised ConnectFailed))
   \<and> (discovered env = Inr (pre @ d # post) \<and> find_device pre suf = None
        \<and> (\<exists>n. name d = Some n \<and> n \<noteq> [] \<and> suffix suf n) \<longrightarrow>
        (\<exists>t. trace (snd (run_ble_client suf env w)) = trace w @ Connect (address d) # t
              \<and> (\<forall>b. Connect b \<notin> set t)))"
proof -
  have P: "(\<lambda>d. case name d of None \<Rightarrow> False | Some n \<Rightarrow> n \<noteq> [] \<and> suffix suf n) =
           (\<lambda>d. \<exists>n. name d = Some n \<and> n \<noteq> [] \<and> suffix suf n)"
    by (auto split: option.splits)
  have a: "find_device ds suf =
     map_option address
       (List.find (\<lambda>d. \<exists>n. name d = Some n \<and> n \<noteq> [] \<and> suffix suf n) ds)" for ds
    using find_device_find [of ds suf] by (simp only: P)
  have Q: "suf \<noteq> [] \<Longrightarrow> (\<lambda>d. \<exists>n. name d = Some n \<and> n \<noteq> [] \<and> suffix suf n) =
           (\<lambda>d::device. \<exists>n. name d = Some n \<and> suffix suf n)"
    by (auto simp: suffix_def)
  have b: "suf \<noteq> [] \<longrightarrow>
        find_device ds suf =
          map_option address (List.find (\<lambda>d. \<exists>n. name d = Some n \<and> suffix suf n) ds)"
    using a [of ds] Q by simp
  have c: "find_device pre suf = None \<and> (\<exists>n. name d = Some n \<and> n \<noteq> [] \<and> suffix suf n) \<longrightarrow>
        find_device (pre @ d # post) suf = Some (address d)"
    by (induction pre) (auto simp: endswith_suffix split: option.splits if_splits)
  have d: "discovered env = Inr ds \<and> find_device ds suf = None \<longrightarrow>
        run_ble_client suf env w = (Returned, put None w)"
    by (simp add: run_ble_client_def)
  have e: "discovered env = Inr ds \<and> find_device ds suf = Some a \<longrightarrow>
        (\<exists>t. trace (snd (run_ble_client suf env w)) = trace w @ Connect a # t
              \<and> (\<forall>b. Connect b \<notin> set t))" for ds a
    using run_ble_client_connects [of env ds suf a w] by (metis prod.collapse)
  have f: "discovered env = Inr ds \<and> find_device ds suf = Some a \<longrightarrow>
        (\<not> connect_ok env \<longrightarrow> fst (run_ble_client suf env w) = Raised ConnectFailed)"
    by (simp add: run_ble_client_def Let_def)
  have g: "discovered env = Inr (pre @ d # post) \<and> find_device pre suf = None
        \<and> (\<exists>n. name d = Some n \<and> n \<noteq> [] \<and> suffix suf n) \<longrightarrow>
        (\<exists>t. trace (snd (run_ble_client suf env w)) = trace w @ Connect (address d) # t
              \<and> (\<forall>b. Connect b \<notin> set t))"
    using c e [of "pre @ d # post" "address d"] by blast
  show ?thesis using a [of ds] b c d e [of ds a] f g by blast
qed

text \<open>
  Claim C7 at a list with a nameless device, a device of another serial and two devices
  with the serial (the session connects to the first of them), and at a list without a
  match.
\<close>

theorem discovery_first_match_witness:
  "find_device
     [\<lparr>name = None, address = ''A0''\<rparr>,
      \<lparr>name = Some ''Movesense 111111111111'', address = ''A1''\<rparr>,
      \<lparr>name = Some ''Movesense 223430000278'', address = ''A2''\<rparr>,
      \<lparr>name = Some ''Other 223430000278'', address = ''A3''\<rparr>] SENSOR_ID = Some ''A2''
   \<and> trace (snd (run_ble_client SENSOR_ID
        \<lparr>discovered = Inr
           [\<lparr>name = None, address = ''A0''\<rparr>,
            \<lparr>name = Some ''Movesense 111111111111'', address = ''A1''\<rparr>,
            \<lparr>name = Some ''Movesense 223430000278'', address = ''A2''\<rparr>,
            \<lparr>name = Some ''Other 223430000278'', address = ''A3''\<rparr>],
         connect_ok = True, main_thread = True, start_notify_ok = True, subscribe_ok = True,
         events = [], disconnect_set = True, is_connected = False, unsubscribe_ok = True,
         stop_notify_ok = True, disconnect_ok = True\<rparr> initial_world)) =
       [Connect ''A2'', StartNotify NOTIFY_CHARACTERISTIC_UUID,
        WriteGattChar WRITE_CHARACTERISTIC_UUID ([1, 99] @ ascii ''/Meas/Acc/13'') True,
        Disconnect]
   \<and> run_ble_client SENSOR_ID
        \<lparr>discovered = Inr [\<lparr>name = Some ''Movesense 111111111111'', address = ''A1''\<rparr>],
         connect_ok = True, main_thread = True, start_notify_ok = True, subscribe_ok = True,
         events = [], disconnect_set = True, is_connected = True, unsubscribe_ok = True,
         stop_notify_ok = True, disconnect_ok = True\<rparr> initial_world
      = (Returned, put None initial_world)"
proof -
  let ?pre = "[\<lparr>name = None, address = ''A0''\<rparr>,
      \<lparr>name = Some ''Movesense 111111111111'', address = ''A1''\<rparr>]"
  let ?d = "\<lparr>name = Some ''Movesense 223430000278'', address = ''A2''\<rparr>"
  let ?post = "[\<lparr>name = Some ''Other 223430000278'', address = ''A3''\<rparr>]"
  let ?env = "\<lparr>discovered = Inr (?pre @ ?d # ?post),
         connect_ok = True, main_thread = True, start_notify_ok = True, subscribe_ok = True,
         events = [], disconnect_set = True, is_connected = False, unsubscribe_ok = True,
         stop_notify_ok = True, disconnect_ok = True\<rparr>"
  let ?none = "\<lparr>discovered = Inr [\<lparr>name = Some ''Movesense 111111111111'', address = ''A1''\<rparr>],
         connect_ok = True, main_thread = True, start_notify_ok = True, subscribe_ok = True,
         events = [], disconnect_set = True, is_connected = True, unsubscribe_ok = True,
         stop_notify_ok = True, disconnect_ok = True\<rparr>"
  have p: "find_device ?pre SENSOR_ID = None"
    by (simp add: SENSOR_ID_def endswith_def)
  have n: "\<exists>n. name ?d = Some n \<and> n \<noteq> [] \<and> suffix SENSOR_ID n"
    by (simp add: SENSOR_ID_def suffix_def)
  note T = discovery_first_match [of "?pre @ ?d # ?post" SENSOR_ID ?pre ?d ?post ?env
        initial_world "''A2''"]
  have d: "discovered ?env = Inr (?pre @ ?d # ?post)"
    by simp
  have "find_device (?pre @ ?d # ?post) SENSOR_ID = Some (address ?d)"
    using T p n by blast
  then have f: "find_device (?pre @ ?d # ?post) SENSOR_ID = Some ''A2''"
    by (simp only: device.simps)
  have "\<exists>t. trace (snd (run_ble_client SENSOR_ID ?env initial_world)) =
      trace initial_world @ Connect (address ?d) # t \<and> (\<forall>b. Connect b \<notin> set t)"
    using T p n d by blast
  then have tr: "trace (snd (run_ble_client SENSOR_ID ?env initial_world)) =
       [Connect ''A2'', StartNotify NOTIFY_CHARACTERISTIC_UUID,
        WriteGattChar WRITE_CHARACTERISTIC_UUID ([1, 99] @ ascii ''/Meas/Acc/13'') True,
        Disconnect]"
    by (simp add: run_simps)
  have p0: "find_device [\<lparr>name = Some ''Movesense 111111111111'', address = ''A1''\<rparr>]
      SENSOR_ID = None"
    by (simp add: SENSOR_ID_def endswith_def)
  have d0: "discovered ?none =
      Inr [\<lparr>name = Some ''Movesense 111111111111'', address = ''A1''\<rparr>]"
    by simp
  have nf: "run_ble_client SENSOR_ID ?none initial_world = (Returned, put None initial_world)"
    using discovery_first_match
      [of "[\<lparr>name = Some ''Movesense 111111111111'', address = ''A1''\<rparr>]" SENSOR_ID "[]"
        ?d "[]" ?none initial_world "''A2''"] p0 d0
    by blast
  show ?thesis using f tr nf by simp
qed

text \<open>
  Claim C8. The \<^verbatim>\<open>fall_state\<close> of a reading is the annotation's value when its
  notification is handled: the value left by the events before it (Start after the fall
  button, Stop after the other button, default initially, unchanged by notifications).
  The queued reading is the same whatever events follow.
\<close>

theorem fall_state_snapshot:
  "(dig data = Inr (ts, x, y, z) \<longrightarrow>
      (\<exists>later. queue (deliver_all (pre @ Notification data now # post) w) =
         queue (deliver_all pre w) @
         Some \<lparr>timestamp = ts, timestamp_local = now, ax = x, ay = y, az = z,
               fall_state = annotation_fall_state (deliver_all pre w)\<rparr> # later))
   \<and> annotation_fall_state (deliver_all (pre @ [FallButtonClicked]) w) = ''Start''
   \<and> annotation_fall_state (deliver_all (pre @ [NotFallButtonClicked]) w) = ''Stop''
   \<and> annotation_fall_state (deliver_all (pre @ [Notification data now]) w) =
       annotation_fall_state (deliver_all pre w)
   \<and> annotation_fall_state initial_world = ''default''"
proof -
  have a: "dig data = Inr (ts, x, y, z) \<longrightarrow>
      (\<exists>later. queue (deliver_all (pre @ Notification data now # post) w) =
         queue (deliver_all pre w) @
         Some \<lparr>timestamp = ts, timestamp_local = now, ax = x, ay = y, az = z,
               fall_state = annotation_fall_state (deliver_all pre w)\<rparr> # later)"
  proof
    assume d: "dig data = Inr (ts, x, y, z)"
    define w1 where "w1 = deliver_all pre w"
    define r where "r = \<lparr>timestamp = ts, timestamp_local = now, ax = x, ay = y, az = z,
               fall_state = annotation_fall_state w1\<rparr>"
    have q: "queue (deliver (Notification data now) w1) = queue w1 @ [Some r]"
      using d by (simp add: deliver_def notification_handler_def put_def Let_def r_def)
    obtain later where
      "queue (deliver_all post (deliver (Notification data now) w1)) =
         queue (deliver (Notification data now) w1) @ later"
      using deliver_all_queue_grows by blast
    then have "queue (deliver_all (pre @ Notification data now # post) w) =
         queue w1 @ Some r # later"
      by (simp add: deliver_all_append q flip: w1_def)
    then show "\<exists>later. queue (deliver_all (pre @ Notification data now # post) w) =
         queue (deliver_all pre w) @
         Some \<lparr>timestamp = ts, timestamp_local = now, ax = x, ay = y, az = z,
               fall_state = annotation_fall_state (deliver_all pre w)\<rparr> # later"
      unfolding w1_def r_def by blast
  qed
  have b: "annotation_fall_state (deliver_all (pre @ [FallButtonClicked]) w) = ''Start''"
    by (simp add: deliver_all_append deliver_def fall_button_clicked_def)
  have c: "annotation_fall_state (deliver_all (pre @ [NotFallButtonClicked]) w) = ''Stop''"
    by (simp add: deliver_all_append deliver_def not_fall_button_clicked_def)
  have d: "annotation_fall_state (deliver_all (pre @ [Notification data now]) w) =
       annotation_fall_state (deliver_all pre w)"
    by (simp add: deliver_all_append deliver_annotation_notification)
  have e: "annotation_fall_state initial_world = ''default''"
    by (simp add: initial_world_def)
  show ?thesis using a b c d e by blast
qed

text \<open>
  Claim C8 at the example: a notification under default, a click on the fall button, a
  second notification, then a click on the other button. The file has the rows of the
  two readings in arrival order, with default and Start.
\<close>

theorem fall_state_snapshot_witness:
  "(case main SENSOR_ID
     \<lparr>discovered = Inr [\<lparr>name = Some ''Movesense 223430000278'', address = ''A2''\<rparr>],
      connect_ok = True, main_thread = True, start_notify_ok = True, subscribe_ok = True,
      events =
        [Notification [0, 0, 10, 0, 0, 0, 0, 0, 128, 63, 0, 0, 0, 64, 0, 0, 64, 64] ''t1'',
         FallButtonClicked,
         Notification [0, 0, 12, 0, 0, 0, 0, 0, 128, 63, 0, 0, 0, 64, 0, 0, 64, 64] ''t2'',
         NotFallButtonClicked],
      disconnect_set = True, is_connected = False, unsubscribe_ok = True,
      stop_notify_ok = True,
      disconnect_ok = True\<rparr> [] initial_world of (r, w, s) \<Rightarrow> files s) =
   [[[Str ''timestamp'', Str ''timestamp_local'', Str ''ax'', Str ''ay'', Str ''az'',
      Str ''fall_state''],
     [Num 10, Str ''t1'', Flt (Finite 1), Flt (Finite 2), Flt (Finite 3), Str ''default''],
     [Num 12, Str ''t2'', Flt (Finite 1), Flt (Finite 2), Flt (Finite 3), Str ''Start'']]]"
  using fall_state_snapshot
    [of "[0, 0, 12, 0, 0, 0, 0, 0, 128, 63, 0, 0, 0, 64, 0, 0, 64, 64]" 12 "Finite 1"
      "Finite 2" "Finite 3"
      "[Notification [0, 0, 10, 0, 0, 0, 0, 0, 128, 63, 0, 0, 0, 64, 0, 0, 64, 64] ''t1'',
        FallButtonClicked]" "''t2''" "[NotFallButtonClicked]" initial_world]
  by (simp add: run_simps)

text \<open>
  Claim C9. A device whose name is missing (\<^verbatim>\<open>None\<close> or the empty string) is never
  matched, whatever the suffix and wherever it stands in the discovered list: discovery
  and the whole session go as if it had not been discovered, the result of discovery is
  that of the list of the named devices, and an address that is selected is that of a
  device with a non-empty name ending with the suffix. When only nameless devices are
  discovered, the loop finds nothing and the session takes the not-found path.
\<close>

theorem nameless_device_never_matched:
  "(name d = None \<or> name d = Some [] \<longrightarrow>
      find_device (pre @ d # post) suf = find_device (pre @ post) suf
      \<and> run_ble_client suf (env\<lparr>discovered := Inr (pre @ d # post)\<rparr>) w =
          run_ble_client suf (env\<lparr>discovered := Inr (pre @ post)\<rparr>) w)
   \<and> find_device (filter (\<lambda>d. name d \<noteq> None \<and> name d \<noteq> Some []) ds) suf = find_device ds suf
   \<and> (find_device ds suf = Some a \<longrightarrow>
        (\<exists>d \<in> set ds. a = address d \<and> (\<exists>n. name d = Some n \<and> n \<noteq> [] \<and> suffix suf n)))
   \<and> ((\<forall>d \<in> set ds. name d = None \<or> name d = Some []) \<longrightarrow>
        find_device ds suf = None
        \<and> (discovered env = Inr ds \<longrightarrow> run_ble_client suf env w = (Returned, put None w)))"
proof -
  have a: "name d = None \<or> name d = Some [] \<longrightarrow>
      find_device (pre @ d # post) suf = find_device (pre @ post) suf
      \<and> run_ble_client suf (env\<lparr>discovered := Inr (pre @ d # post)\<rparr>) w =
          run_ble_client suf (env\<lparr>discovered := Inr (pre @ post)\<rparr>) w"
  proof
    assume n: "name d = None \<or> name d = Some []"
    have f: "find_device (pre @ d # post) suf = find_device (pre @ post) suf"
      using n by (rule find_device_skip_nameless)
    have cb: "client_block (env\<lparr>discovered := x\<rparr>) = client_block env" for x
      by (rule ext) (simp add: client_block_def teardown_def Let_def)
    have "run_ble_client suf (env\<lparr>discovered := Inr (pre @ d # post)\<rparr>) w =
          run_ble_client suf (env\<lparr>discovered := Inr (pre @ post)\<rparr>) w"
      by (simp add: run_ble_client_def f cb Let_def
          split: option.splits prod.splits outcome.splits)
    then show "find_device (pre @ d # post) suf = find_device (pre @ post) suf
      \<and> run_ble_client suf (env\<lparr>discovered := Inr (pre @ d # post)\<rparr>) w =
          run_ble_client suf (env\<lparr>discovered := Inr (pre @ post)\<rparr>) w"
      using f by simp
  qed
  have b: "find_device (filter (\<lambda>d. name d \<noteq> None \<and> name d \<noteq> Some []) ds) suf =
      find_device ds suf"
    by (rule find_device_filter_named)
  have c: "find_device ds suf = Some a \<longrightarrow>
        (\<exists>d \<in> set ds. a = address d \<and> (\<exists>n. name d = Some n \<and> n \<noteq> [] \<and> suffix suf n))"
    using find_device_Some by blast
  have d: "(\<forall>d \<in> set ds. name d = None \<or> name d = Some []) \<longrightarrow>
        find_device ds suf = None
        \<and> (discovered env = Inr ds \<longrightarrow> run_ble_client suf env w = (Returned, put None w))"
  proof
    assume n: "\<forall>d \<in> set ds. name d = None \<or> name d = Some []"
    then have "find_device ds suf = None"
      by (induction ds) (auto split: option.splits)
    then show "find_device ds suf = None
        \<and> (discovered env = Inr ds \<longrightarrow> run_ble_client suf env w = (Returned, put None w))"
      by (simp add: run_ble_client_def)
  qed
  show ?thesis using a b c d by blast
qed

text \<open>
  Claim C9 at two nameless devices followed by the sensor, and at the two nameless
  devices alone with the empty suffix.
\<close>

theorem nameless_device_never_matched_witness:
  "find_device
     [\<lparr>name = None, address = ''A0''\<rparr>, \<lparr>name = Some [], address = ''A1''\<rparr>,
      \<lparr>name = Some ''Movesense 223430000278'', address = ''A2''\<rparr>] SENSOR_ID = Some ''A2''
   \<and> find_device [\<lparr>name = None, address = ''A0''\<rparr>, \<lparr>name = Some [], address = ''A1''\<rparr>] []
       = None
   \<and> run_ble_client []
        \<lparr>discovered = Inr [\<lparr>name = None, address = ''A0''\<rparr>, \<lparr>name = Some [], address = ''A1''\<rparr>],
         connect_ok = True, main_thread = True, start_notify_ok = True, subscribe_ok = True,
         events = [], disconnect_set = True, is_connected = True, unsubscribe_ok = True,
         stop_notify_ok = True, disconnect_ok = True\<rparr> initial_world
      = (Returned, put None initial_world)"
proof -
  let ?a0 = "\<lparr>name = None, address = ''A0''\<rparr>"
  let ?a1 = "\<lparr>name = Some [], address = ''A1''\<rparr>"
  let ?a2 = "\<lparr>name = Some ''Movesense 223430000278'', address = ''A2''\<rparr>"
  let ?env = "\<lparr>discovered = Inr [?a0, ?a1],
         connect_ok = True, main_thread = True, start_notify_ok = True, subscribe_ok = True,
         events = [], disconnect_set = True, is_connected = True, unsubscribe_ok = True,
         stop_notify_ok = True, disconnect_ok = True\<rparr>"
  have "find_device ([] @ ?a0 # [?a1, ?a2]) SENSOR_ID = find_device ([] @ [?a1, ?a2]) SENSOR_ID"
    using nameless_device_never_matched [of ?a0 "[]" "[?a1, ?a2]" SENSOR_ID ?env initial_world
        "[?a0, ?a1]" "''A2''"]
    by simp
  moreover have "find_device ([] @ ?a1 # [?a2]) SENSOR_ID = find_device ([] @ [?a2]) SENSOR_ID"
    using nameless_device_never_matched [of ?a1 "[]" "[?a2]" SENSOR_ID ?env initial_world
        "[?a0, ?a1]" "''A2''"]
    by simp
  moreover have "find_device [?a2] SENSOR_ID = Some ''A2''"
    by (simp add: SENSOR_ID_def endswith_def)
  ultimately have one: "find_device [?a0, ?a1, ?a2] SENSOR_ID = Some ''A2''"
    by simp
  have all: "\<forall>d \<in> set [?a0, ?a1]. name d = None \<or> name d = Some []"
    by simp
  have two: "find_device [?a0, ?a1] [] = None
      \<and> run_ble_client [] ?env initial_world = (Returned, put None initial_world)"
    using nameless_device_never_matched [of ?a0 "[]" "[]" "[]" ?env initial_world
        "[?a0, ?a1]" "''A2''"] all
    by simp
  show ?thesis using one two by simp
qed

text \<open>
  Claim C10. The sink stops at the first sentinel it takes from the queue: whatever was
  put after it stays unconsumed, is not appended to DATA_POINTS and does not change the
  file written. The file is written on the sentinel alone, once: without a sentinel no
  file is written and the consumer does not return.
\<close>

theorem sink_stops_at_first_sentinel:
  "data_points (run_queue_consumer dp (map Some rs @ None # rest)) = dp @ rs
   \<and> unconsumed (run_queue_consumer dp (map Some rs @ None # rest)) = rest
   \<and> files (run_queue_consumer dp (map Some rs @ None # rest)) = [save_as_csv (dp @ rs)]
   \<and> files (run_queue_consumer dp (map Some rs @ None # rest)) =
       files (run_queue_consumer dp (map Some rs @ [None]))
   \<and> files (run_queue_consumer dp (map Some rs)) = []
   \<and> \<not> returned (run_queue_consumer dp (map Some rs))"
  by (simp add: run_queue_consumer_sentinel run_queue_consumer_no_sentinel)

text \<open>
  Claim C10 at a queue with a reading and a second sentinel after the first.
\<close>

theorem sink_stops_at_first_sentinel_witness:
  "run_queue_consumer []
      [Some \<lparr>timestamp = 10, timestamp_local = ''t1'', ax = Finite 1, ay = Finite 2,
             az = Finite 3, fall_state = ''default''\<rparr>,
       None,
       Some \<lparr>timestamp = 11, timestamp_local = ''t2'', ax = Finite 0, ay = NegZero,
             az = NaN, fall_state = ''Start''\<rparr>,
       None] =
     \<lparr>data_points =
        [\<lparr>timestamp = 10, timestamp_local = ''t1'', ax = Finite 1, ay = Finite 2,
          az = Finite 3, fall_state = ''default''\<rparr>],
      files =
        [[head,
          [Num 10, Str ''t1'', Flt (Finite 1), Flt (Finite 2), Flt (Finite 3), Str ''default'']]],
      returned = True,
      unconsumed =
        [Some \<lparr>timestamp = 11, timestamp_local = ''t2'', ax = Finite 0, ay = NegZero,
               az = NaN, fall_state = ''Start''\<rparr>,
         None]\<rparr>"
  using sink_stops_at_first_sentinel
    [of "[]" "[\<lparr>timestamp = 10, timestamp_local = ''t1'', ax = Finite 1, ay = Finite 2,
             az = Finite 3, fall_state = ''default''\<rparr>]"
        "[Some \<lparr>timestamp = 11, timestamp_local = ''t2'', ax = Finite 0, ay = NegZero,
               az = NaN, fall_state = ''Start''\<rparr>, None]"]
  by (simp add: save_as_csv_def as_csv_field_def)

end
